theory Spec2Isabelle
  imports Main
begin

section \<open>Data model of the game server (backend/main.go)\<close>

text \<open>
  \<^verbatim>\<open>const ( ROWS = 6; COLS = 7 )\<close>. Row and column indices are Go \<^verbatim>\<open>int\<close>s; the
  code compares them with \<open>-1\<close> and subtracts from them, so they are modelled as \<open>int\<close>.
  Every index the code computes lies between \<open>-3\<close> and \<open>9\<close>: no machine overflow.
\<close>

definition ROWS :: int where "ROWS = 6"
definition COLS :: int where "COLS = 7"

text \<open>
  \<^verbatim>\<open>type Color string\<close> with the three constants \<^verbatim>\<open>Red = "red"\<close>, \<^verbatim>\<open>Yellow = "yellow"\<close>,
  \<^verbatim>\<open>Empty = ""\<close>.
\<close>

type_synonym Color = string

definition Red :: Color where "Red = ''red''"
definition Yellow :: Color where "Yellow = ''yellow''"
definition Empty :: Color where "Empty = []"

text \<open>
  \<^verbatim>\<open>Board [][]Color\<close>: a slice of rows. Row 0 is the top row, row \<open>ROWS - 1\<close> the bottom
  one. \<^verbatim>\<open>createGame\<close> (and the tests) allocate it with \<open>ROWS\<close> rows of \<open>COLS\<close> cells.
\<close>

type_synonym Board = "Color list list"

definition wf_board :: "Board \<Rightarrow> bool" where
  "wf_board b = (int (length b) = ROWS \<and> list_all (\<lambda>row. int (length row) = COLS) b)"

text \<open>
  \<^verbatim>\<open>game.Board[r][c]\<close>. Go panics with "index out of range" when an index is negative
  or not below the length of the slice; the panic is the value \<open>None\<close>.
\<close>

definition cell :: "Board \<Rightarrow> int \<Rightarrow> int \<Rightarrow> Color option" where
  "cell b r c =
     (if 0 \<le> r \<and> r < int (length b)
      then (if 0 \<le> c \<and> c < int (length (b ! nat r))
            then Some (b ! nat r ! nat c) else None)
      else None)"

text \<open>\<^verbatim>\<open>game.Board[r][c] = v\<close>, with the same panic.\<close>

definition setCell :: "Board \<Rightarrow> int \<Rightarrow> int \<Rightarrow> Color \<Rightarrow> Board option" where
  "setCell b r c v =
     (if 0 \<le> r \<and> r < int (length b)
      then (if 0 \<le> c \<and> c < int (length (b ! nat r))
            then Some (b[nat r := (b ! nat r)[nat c := v]]) else None)
      else None)"

section \<open>Board engine\<close>

subsection \<open>checkWinner (main.go, lines 413-464)\<close>

text \<open>
  One inner loop of \<^verbatim>\<open>checkWinner\<close>:
  \<^verbatim>\<open>for i := 1; i < 4; i++ { r := row + dr*i; c := col + dc*i;
       if r < 0 || r >= ROWS || c < 0 || c >= COLS { break }
       if game.Board[r][c] != color { break }
       count++ }\<close>
  The list argument holds the values of \<open>i\<close> still to visit; the result is the value
  of \<open>count\<close> when the loop is left. The loop for the negative direction is the same
  loop with \<open>dr\<close> and \<open>dc\<close> negated (\<open>row - dr*i = row + (-dr)*i\<close>).
\<close>

fun countLoop :: "Board \<Rightarrow> Color \<Rightarrow> int \<Rightarrow> int \<Rightarrow> int \<Rightarrow> int \<Rightarrow> int list \<Rightarrow> int \<Rightarrow> int option" where
  "countLoop b color row col dr dc [] count = Some count"
| "countLoop b color row col dr dc (i # rest) count =
     (let r = row + dr * i; c = col + dc * i in
      if r < 0 \<or> r \<ge> ROWS \<or> c < 0 \<or> c \<ge> COLS then Some count
      else (case cell b r c of
              None \<Rightarrow> None
            | Some v \<Rightarrow>
                if v \<noteq> color then Some count
                else countLoop b color row col dr dc rest (count + 1)))"

text \<open>\<^verbatim>\<open>directions := [][2]int{{0, 1}, {1, 0}, {1, 1}, {1, -1}}\<close>\<close>

definition directions :: "(int \<times> int) list" where
  "directions = [(0, 1), (1, 0), (1, 1), (1, -1)]"

text \<open>
  The outer loop \<^verbatim>\<open>for _, dir := range directions\<close>: \<open>count\<close> starts at 1, the two
  inner loops run, and \<^verbatim>\<open>count >= 4\<close> returns true at once.
\<close>

fun dirLoop :: "Board \<Rightarrow> Color \<Rightarrow> int \<Rightarrow> int \<Rightarrow> (int \<times> int) list \<Rightarrow> bool option" where
  "dirLoop b color row col [] = Some False"
| "dirLoop b color row col ((dr, dc) # rest) =
     (case countLoop b color row col dr dc [1, 2, 3] 1 of
        None \<Rightarrow> None
      | Some c1 \<Rightarrow>
          (case countLoop b color row col (- dr) (- dc) [1, 2, 3] c1 of
             None \<Rightarrow> None
           | Some c2 \<Rightarrow>
               if c2 \<ge> 4 then Some True else dirLoop b color row col rest))"

definition checkWinner :: "Board \<Rightarrow> int \<Rightarrow> int \<Rightarrow> bool option" where
  "checkWinner b row col =
     (case cell b row col of
        None \<Rightarrow> None
      | Some color \<Rightarrow>
          if color = Empty then Some False
          else dirLoop b color row col directions)"

subsection \<open>The specification of a win, in the spec's words\<close>

text \<open>
  "Some axis through that cell has at least 4 contiguous same-color cells including it":
  on one of the four axes there is a window of four consecutive grid cells that
  contains \<open>(row, col)\<close> and holds its color everywhere. A cell outside the grid holds
  no color. \<open>k\<close> is the position of \<open>(row, col)\<close> inside the window.
\<close>

definition inGrid :: "int \<Rightarrow> int \<Rightarrow> bool" where
  "inGrid r c = (0 \<le> r \<and> r < ROWS \<and> 0 \<le> c \<and> c < COLS)"

definition holds :: "Board \<Rightarrow> Color \<Rightarrow> int \<Rightarrow> int \<Rightarrow> bool" where
  "holds b color r c = (inGrid r c \<and> cell b r c = Some color)"

definition axes :: "(int \<times> int) list" where
  "axes = [(0, 1), (1, 0), (1, 1), (1, -1)]"

definition window :: "Board \<Rightarrow> Color \<Rightarrow> int \<Rightarrow> int \<Rightarrow> int \<times> int \<Rightarrow> int \<Rightarrow> bool" where
  "window b color row col ax k =
     list_all (\<lambda>j. holds b color (row + fst ax * (j - k)) (col + snd ax * (j - k))) [0, 1, 2, 3]"

definition fourInLine :: "Board \<Rightarrow> int \<Rightarrow> int \<Rightarrow> bool" where
  "fourInLine b row col =
     (case cell b row col of
        None \<Rightarrow> False
      | Some color \<Rightarrow>
          list_ex (\<lambda>ax. list_ex (\<lambda>k. window b color row col ax k) [0, 1, 2, 3]) axes)"

subsection \<open>The row search and the placement (main.go, lines 262-278)\<close>

text \<open>
  \<^verbatim>\<open>row := -1; for r := ROWS - 1; r >= 0; r-- { if game.Board[r][col] == Empty { row = r; break } }\<close>
  The same loop stands in \<^verbatim>\<open>handleMove\<close>, \<^verbatim>\<open>makeBotMove\<close> and \<^verbatim>\<open>canWin\<close>.
  \<open>rowLoop b col n\<close> is the loop when the rows \<open>n - 1, ..., 0\<close> are still to visit; its
  result is the final value of \<open>row\<close>.
\<close>

fun rowLoop :: "Board \<Rightarrow> int \<Rightarrow> nat \<Rightarrow> int option" where
  "rowLoop b col 0 = Some (- 1)"
| "rowLoop b col (Suc n) =
     (case cell b (int n) col of
        None \<Rightarrow> None
      | Some v \<Rightarrow> if v = Empty then Some (int n) else rowLoop b col n)"

definition findRow :: "Board \<Rightarrow> int \<Rightarrow> int option" where
  "findRow b col = rowLoop b col (nat ROWS)"

text \<open>
  Lines 262-278 of \<^verbatim>\<open>handleMove\<close>, the spec's \<open>place\<close>: the row search, the return
  when \<^verbatim>\<open>row == -1\<close> (column full), otherwise \<^verbatim>\<open>game.Board[row][col] = player.Color\<close>.
  The result is the row (\<open>-1\<close> for a full column) and the board afterwards.
\<close>

definition place :: "Board \<Rightarrow> int \<Rightarrow> Color \<Rightarrow> (int \<times> Board) option" where
  "place b col color =
     (case findRow b col of
        None \<Rightarrow> None
      | Some row \<Rightarrow>
          if row = - 1 then Some (- 1, b)
          else (case setCell b row col color of
                  None \<Rightarrow> None
                | Some b' \<Rightarrow> Some (row, b')))"

subsection \<open>isBoardFull (main.go, lines 466-475)\<close>

fun rowHasEmpty :: "Color list \<Rightarrow> bool" where
  "rowHasEmpty [] = False"
| "rowHasEmpty (c # rest) = (if c = Empty then True else rowHasEmpty rest)"

fun isBoardFull :: "Board \<Rightarrow> bool" where
  "isBoardFull [] = True"
| "isBoardFull (row # rest) = (if rowHasEmpty row then False else isBoardFull rest)"

section \<open>Opponent heuristic\<close>

subsection \<open>canWin (main.go, lines 392-407)\<close>

text \<open>
  \<^verbatim>\<open>canWin\<close> writes the disc into the game's own board, calls \<^verbatim>\<open>checkWinner\<close> and
  writes \<^verbatim>\<open>Empty\<close> back. The board is passed through: the result is the answer and
  the board as \<^verbatim>\<open>canWin\<close> leaves it.
\<close>

definition canWin :: "Board \<Rightarrow> int \<Rightarrow> Color \<Rightarrow> (bool \<times> Board) option" where
  "canWin b col color =
     (case findRow b col of
        None \<Rightarrow> None
      | Some row \<Rightarrow>
          if row = - 1 then Some (False, b)
          else (case setCell b row col color of
                  None \<Rightarrow> None
                | Some b1 \<Rightarrow>
                    (case checkWinner b1 row col of
                       None \<Rightarrow> None
                     | Some wins \<Rightarrow>
                         (case setCell b1 row col Empty of
                            None \<Rightarrow> None
                          | Some b2 \<Rightarrow> Some (wins, b2)))))"

subsection \<open>isColumnAvailable (main.go, lines 409-411)\<close>

text \<open>\<^verbatim>\<open>col >= 0 && col < COLS && game.Board[0][col] == Empty\<close>, evaluated left to right.\<close>

definition isColumnAvailable :: "Board \<Rightarrow> int \<Rightarrow> bool option" where
  "isColumnAvailable b col =
     (if col \<ge> 0 \<and> col < COLS
      then (case cell b 0 col of None \<Rightarrow> None | Some v \<Rightarrow> Some (v = Empty))
      else Some False)"

subsection \<open>getBotMove (main.go, lines 370-390)\<close>

text \<open>
  \<^verbatim>\<open>for col := 0; col < COLS; col++ { if gs.canWin(game, col, color) { return col } }\<close>
  over the columns still to visit. \<open>Some c\<close> is the \<^verbatim>\<open>return col\<close>, \<open>None\<close> (inside)
  is leaving the loop at its end; the board comes back as the calls of \<^verbatim>\<open>canWin\<close>
  left it.
\<close>

fun winLoop :: "Board \<Rightarrow> Color \<Rightarrow> int list \<Rightarrow> (int option \<times> Board) option" where
  "winLoop b color [] = Some (None, b)"
| "winLoop b color (col # rest) =
     (case canWin b col color of
        None \<Rightarrow> None
      | Some (wins, b') \<Rightarrow> if wins then Some (Some col, b') else winLoop b' color rest)"

text \<open>\<^verbatim>\<open>for _, col := range []int{2, 4, 1, 5, 0, 6} { if gs.isColumnAvailable(game, col) { return col } }\<close>\<close>

fun availLoop :: "Board \<Rightarrow> int list \<Rightarrow> int option option" where
  "availLoop b [] = Some None"
| "availLoop b (col # rest) =
     (case isColumnAvailable b col of
        None \<Rightarrow> None
      | Some a \<Rightarrow> if a then Some (Some col) else availLoop b rest)"

definition allCols :: "int list" where
  "allCols = [0, 1, 2, 3, 4, 5, 6]"

definition getBotMove :: "Board \<Rightarrow> (int \<times> Board) option" where
  "getBotMove b =
     (case winLoop b Yellow allCols of
        None \<Rightarrow> None
      | Some (Some col, b1) \<Rightarrow> Some (col, b1)
      | Some (None, b1) \<Rightarrow>
          (case winLoop b1 Red allCols of
             None \<Rightarrow> None
           | Some (Some col, b2) \<Rightarrow> Some (col, b2)
           | Some (None, b2) \<Rightarrow>
               (case isColumnAvailable b2 3 of
                  None \<Rightarrow> None
                | Some True \<Rightarrow> Some (3, b2)
                | Some False \<Rightarrow>
                    (case availLoop b2 [2, 4, 1, 5, 0, 6] of
                       None \<Rightarrow> None
                     | Some (Some col) \<Rightarrow> Some (col, b2)
                     | Some None \<Rightarrow> Some (- 1, b2)))))"

subsection \<open>The decision order, in the spec's words\<close>

text \<open>
  A column has room when one of its cells is empty. Placing a side "legally" in a column
  puts it on the lowest empty cell; it "would complete a win" when that cell then lies on
  a line of four (\<open>fourInLine\<close>, the specification of a win above).
\<close>

definition hasRoom :: "Board \<Rightarrow> int \<Rightarrow> bool" where
  "hasRoom b col = list_ex (\<lambda>r. cell b r col = Some Empty) [0, 1, 2, 3, 4, 5]"

definition lowestEmpty :: "Board \<Rightarrow> int \<Rightarrow> int option" where
  "lowestEmpty b col = find (\<lambda>r. cell b r col = Some Empty) [5, 4, 3, 2, 1, 0]"

definition wouldWin :: "Board \<Rightarrow> int \<Rightarrow> Color \<Rightarrow> bool" where
  "wouldWin b col side =
     (case lowestEmpty b col of
        None \<Rightarrow> False
      | Some r \<Rightarrow> fourInLine (b[nat r := (b ! nat r)[nat col := side]]) r col)"

definition chooseColumn :: "Board \<Rightarrow> Color \<Rightarrow> Color \<Rightarrow> int" where
  "chooseColumn b ownSide opponentSide =
     (case find (\<lambda>c. wouldWin b c ownSide) [0, 1, 2, 3, 4, 5, 6] of
        Some c \<Rightarrow> c
      | None \<Rightarrow>
          (case find (\<lambda>c. wouldWin b c opponentSide) [0, 1, 2, 3, 4, 5, 6] of
             Some c \<Rightarrow> c
           | None \<Rightarrow>
               if hasRoom b 3 then 3
               else (case find (\<lambda>c. hasRoom b c) [2, 4, 1, 5, 0, 6] of
                       Some c \<Rightarrow> c
                     | None \<Rightarrow> - 1)))"

text \<open>
  The gravity invariant of the data model: in every column the filled cells are a
  contiguous run that starts at the bottom row, so no empty cell lies below a filled one.
\<close>

definition gravity :: "Board \<Rightarrow> bool" where
  "gravity b =
     list_all (\<lambda>c. list_all (\<lambda>r. cell b r c = Some Empty \<or> cell b (r + 1) c \<noteq> Some Empty)
                 [0, 1, 2, 3, 4]) [0, 1, 2, 3, 4, 5, 6]"

text \<open>
  What \<^verbatim>\<open>isColumnAvailable\<close> tests: the column index is in range and the top cell of
  the column is empty.
\<close>

definition topEmpty :: "Board \<Rightarrow> int \<Rightarrow> bool" where
  "topEmpty b col = (0 \<le> col \<and> col < COLS \<and> cell b 0 col = Some Empty)"

section \<open>Sessions, seats and the server state\<close>

text \<open>
  Go pointers are addresses into two heaps, one of \<^verbatim>\<open>Player\<close> objects and one of
  \<^verbatim>\<open>GameState\<close> objects; an address is the index of the object in the heap, and
  \<^verbatim>\<open>&Player{...}\<close> appends a new object. Two pointers are equal (\<^verbatim>\<open>game.Player1 == player\<close>)
  when the addresses are. A \<^verbatim>\<open>*websocket.Conn\<close> is a number, \<open>None\<close> is \<^verbatim>\<open>nil\<close>.
  Wall-clock fields (\<^verbatim>\<open>LastSeen\<close>, \<^verbatim>\<open>StartTime\<close>, \<^verbatim>\<open>EndTime\<close>) are written and never read
  by the game logic; they are left out, as are the database and Kafka collaborators.
\<close>

type_synonym conn = nat
type_synonym pref = nat
type_synonym gref = nat

record Player =
  Username :: string
  Color :: Color
  Conn :: "conn option"
  Disconnected :: bool

record GameState =
  ID :: string
  Board :: Board
  Player1 :: pref
  Player2 :: pref
  CurrentPlayer :: Color
  Winner :: string
  IsBot :: bool

text \<open>
  \<^verbatim>\<open>Message\<close>, server to client, by its \<^verbatim>\<open>Type\<close> tag with the fields the server sets:
  \<^verbatim>\<open>waiting\<close>, \<^verbatim>\<open>game_start{color, opponent, current_player, game_id}\<close>,
  \<^verbatim>\<open>move{board, current_player}\<close>, \<^verbatim>\<open>game_over{board, winner}\<close>, \<^verbatim>\<open>opponent_disconnected\<close>,
  \<^verbatim>\<open>game_forfeited{winner}\<close>, \<^verbatim>\<open>error{message}\<close>.
\<close>

datatype Message =
    Waiting
  | GameStart Color string Color string
  | MoveMsg Board Color
  | GameOver Board string
  | OpponentDisconnected
  | GameForfeited string
  | Error string

text \<open>
  A goroutine started with \<^verbatim>\<open>go func() { time.Sleep(...); ... }()\<close> that has not woken up
  yet: the bot fallback of \<^verbatim>\<open>matchPlayer\<close> (captures \<open>player\<close>), the thinking delay of
  \<^verbatim>\<open>handleMove\<close> (captures \<open>game\<close>), the grace period of \<^verbatim>\<open>handleDisconnect\<close> (captures
  \<open>player\<close> and \<open>game\<close>).
\<close>

datatype timer = FallbackTimer pref | BotThink gref | GraceTimer pref gref

text \<open>
  The local variables \<^verbatim>\<open>player\<close> and \<^verbatim>\<open>game\<close> of one run of \<^verbatim>\<open>HandleWebSocket\<close>, and
  whether its read loop is still running.
\<close>

record Handler =
  hplayer :: "pref option"
  hgame :: "gref option"
  hopen :: bool

text \<open>
  \<^verbatim>\<open>GameServer\<close> with the two heaps, the messages written so far (\<^verbatim>\<open>WriteJSON\<close> calls,
  oldest first), the sleeping goroutines and the connection handlers (the handler of
  connection \<open>c\<close> is \<open>handlers ! c\<close>). The Go maps \<^verbatim>\<open>games\<close> and \<^verbatim>\<open>playerGames\<close> are
  association lists.
\<close>

record GameServer =
  players :: "Player list"
  gameObjs :: "GameState list"
  games :: "(string \<times> gref) list"
  playerGames :: "(string \<times> gref) list"
  waitingPlayers :: "pref list"
  sent :: "(conn \<times> Message) list"
  timers :: "timer list"
  handlers :: "Handler list"

definition player :: "GameServer \<Rightarrow> pref \<Rightarrow> Player" where
  "player s p = players s ! p"

definition game :: "GameServer \<Rightarrow> gref \<Rightarrow> GameState" where
  "game s g = gameObjs s ! g"

definition setPlayer :: "GameServer \<Rightarrow> pref \<Rightarrow> Player \<Rightarrow> GameServer" where
  "setPlayer s p P = s\<lparr>players := (players s)[p := P]\<rparr>"

definition setGame :: "GameServer \<Rightarrow> gref \<Rightarrow> GameState \<Rightarrow> GameServer" where
  "setGame s g G = s\<lparr>gameObjs := (gameObjs s)[g := G]\<rparr>"

text \<open>\<^verbatim>\<open>m[k] = v\<close> on a Go map.\<close>

fun mapPut :: "('k \<times> 'v) list \<Rightarrow> 'k \<Rightarrow> 'v \<Rightarrow> ('k \<times> 'v) list" where
  "mapPut [] k v = [(k, v)]"
| "mapPut ((k', v') # rest) k v = (if k' = k then (k, v) # rest else (k', v') # mapPut rest k v)"

text \<open>\<^verbatim>\<open>c.WriteJSON(msg)\<close>; a write error is logged or ignored by every caller.\<close>

definition writeJSON :: "GameServer \<Rightarrow> conn \<Rightarrow> Message \<Rightarrow> GameServer" where
  "writeJSON s c m = s\<lparr>sent := sent s @ [(c, m)]\<rparr>"

text \<open>\<^verbatim>\<open>if p.Conn != nil { p.Conn.WriteJSON(msg) }\<close>\<close>

definition sendTo :: "GameServer \<Rightarrow> pref \<Rightarrow> Message \<Rightarrow> GameServer" where
  "sendTo s p m = (case Conn (player s p) of None \<Rightarrow> s | Some c \<Rightarrow> writeJSON s c m)"

subsection \<open>Broadcasts (main.go, lines 477-527 and 560-568)\<close>

text \<open>\<^verbatim>\<open>createGame\<close> sets both seats, so the tests \<^verbatim>\<open>game.Player2 != nil\<close> are true.\<close>

definition broadcastMove :: "GameServer \<Rightarrow> gref \<Rightarrow> GameServer" where
  "broadcastMove s g =
     (let G = game s g; msg = MoveMsg (Board G) (CurrentPlayer G) in
      sendTo (sendTo s (Player1 G) msg) (Player2 G) msg)"

definition broadcastGameOver :: "GameServer \<Rightarrow> gref \<Rightarrow> GameServer" where
  "broadcastGameOver s g =
     (let G = game s g; msg = GameOver (Board G) (Winner G) in
      sendTo (sendTo s (Player1 G) msg) (Player2 G) msg)"

definition sendGameState :: "GameServer \<Rightarrow> gref \<Rightarrow> GameServer" where
  "sendGameState s g =
     (let G = game s g; msg = MoveMsg (Board G) (CurrentPlayer G);
          s1 = (if \<not> Disconnected (player s (Player1 G)) then sendTo s (Player1 G) msg else s)
      in if \<not> Disconnected (player s1 (Player2 G)) then sendTo s1 (Player2 G) msg else s1)"

subsection \<open>handleMove (main.go, lines 238-317)\<close>

text \<open>
  The body of \<^verbatim>\<open>handleMove\<close> under the game's mutex. The checks come in the order of
  the source: game finished (log only), not the player's turn (error message), column
  out of range (log only), then the placement of lines 262-278 (\<open>place\<close>; error message
  when the column is full), the win check, the draw check and the turn flip. When the
  game is a bot game and the turn is now yellow's, the thinking goroutine is started.
\<close>

definition handleMove :: "GameServer \<Rightarrow> gref \<Rightarrow> pref \<Rightarrow> int \<Rightarrow> GameServer option" where
  "handleMove s g p col =
     (let G = game s g; P = player s p in
      if Winner G \<noteq> [] then Some s
      else if Color P \<noteq> CurrentPlayer G then Some (sendTo s p (Error ''Not your turn''))
      else if col < 0 \<or> col \<ge> COLS then Some s
      else (case place (Board G) col (Color P) of
              None \<Rightarrow> None
            | Some (row, b') \<Rightarrow>
                if row = - 1 then Some (sendTo s p (Error ''Column is full''))
                else (case checkWinner b' row col of
                        None \<Rightarrow> None
                      | Some True \<Rightarrow>
                          Some (broadcastGameOver
                                  (setGame s g (G\<lparr>Board := b', Winner := Color P\<rparr>)) g)
                      | Some False \<Rightarrow>
                          if isBoardFull b'
                          then Some (broadcastGameOver
                                       (setGame s g (G\<lparr>Board := b', Winner := ''draw''\<rparr>)) g)
                          else (let cur = (if CurrentPlayer G = Red then Yellow else Red);
                                    s1 = broadcastMove
                                           (setGame s g (G\<lparr>Board := b', CurrentPlayer := cur\<rparr>)) g
                                in Some (if IsBot G \<and> cur = Yellow
                                         then s1\<lparr>timers := timers s1 @ [BotThink g]\<rparr>
                                         else s1)))))"

subsection \<open>makeBotMove (main.go, lines 319-368)\<close>

text \<open>
  The body of the thinking goroutine after its sleep. \<^verbatim>\<open>getBotMove\<close> works on the game's own
  board, so the board it leaves is stored back before anything else happens.
\<close>

definition makeBotMove :: "GameServer \<Rightarrow> gref \<Rightarrow> GameServer option" where
  "makeBotMove s g =
     (let G = game s g in
      if Winner G \<noteq> [] then Some s
      else (case getBotMove (Board G) of
              None \<Rightarrow> None
            | Some (col, b0) \<Rightarrow>
                (let s0 = setGame s g (G\<lparr>Board := b0\<rparr>) in
                 if col = - 1 then Some s0
                 else (case place b0 col Yellow of
                         None \<Rightarrow> None
                       | Some (row, b') \<Rightarrow>
                           if row = - 1 then Some s0
                           else (case checkWinner b' row col of
                                   None \<Rightarrow> None
                                 | Some True \<Rightarrow>
                                     Some (broadcastGameOver
                                             (setGame s g (G\<lparr>Board := b', Winner := ''yellow''\<rparr>)) g)
                                 | Some False \<Rightarrow>
                                     if isBoardFull b'
                                     then Some (broadcastGameOver
                                                  (setGame s g (G\<lparr>Board := b', Winner := ''draw''\<rparr>)) g)
                                     else Some (broadcastMove
                                                  (setGame s g (G\<lparr>Board := b', CurrentPlayer := Red\<rparr>)) g))))))"

subsection \<open>Disconnect and forfeiture (main.go, lines 529-558)\<close>

text \<open>\<^verbatim>\<open>getOpponent\<close> compares pointers: \<^verbatim>\<open>if game.Player1 == player { return game.Player2 }; return game.Player1\<close>.\<close>

definition getOpponent :: "GameState \<Rightarrow> pref \<Rightarrow> pref" where
  "getOpponent G p = (if Player1 G = p then Player2 G else Player1 G)"

text \<open>\<^verbatim>\<open>handleDisconnect\<close> up to the start of its goroutine.\<close>

definition handleDisconnect :: "GameServer \<Rightarrow> pref \<Rightarrow> gref \<Rightarrow> GameServer" where
  "handleDisconnect s p g =
     (let s1 = setPlayer s p ((player s p)\<lparr>Disconnected := True\<rparr>);
          s2 = sendTo s1 (getOpponent (game s1 g) p) OpponentDisconnected
      in s2\<lparr>timers := timers s2 @ [GraceTimer p g]\<rparr>)"

text \<open>
  The goroutine of \<^verbatim>\<open>handleDisconnect\<close> after its 30 seconds:
  \<^verbatim>\<open>if player.Disconnected && game.Winner == "" { game.Winner = string(gs.getOpponent(game, player).Color); ... }\<close>
\<close>

definition graceTimer :: "GameServer \<Rightarrow> pref \<Rightarrow> gref \<Rightarrow> GameServer" where
  "graceTimer s p g =
     (if Disconnected (player s p) \<and> Winner (game s g) = []
      then (let opp = getOpponent (game s g) p;
                s1 = setGame s g ((game s g)\<lparr>Winner := Color (player s opp)\<rparr>)
            in sendTo s1 opp (GameForfeited (Winner (game s1 g))))
      else s)"

subsection \<open>createGame (main.go, lines 200-236)\<close>

text \<open>
  \<open>gameID\<close> is what \<^verbatim>\<open>generateID()\<close> returned (eight random characters). The new
  \<^verbatim>\<open>GameState\<close> gets the next free address, which is returned with the state.
\<close>

definition newBoard :: Board where
  "newBoard = replicate (nat ROWS) (replicate (nat COLS) Empty)"

definition createGame :: "GameServer \<Rightarrow> pref \<Rightarrow> pref \<Rightarrow> bool \<Rightarrow> string \<Rightarrow> GameServer \<times> gref" where
  "createGame s p1 p2 isBot gameID =
     (let s1 = setPlayer s p1 ((player s p1)\<lparr>Color := Red\<rparr>);
          s2 = setPlayer s1 p2 ((player s1 p2)\<lparr>Color := Yellow\<rparr>);
          g = length (gameObjs s2);
          G = \<lparr>ID = gameID, Board = newBoard, Player1 = p1, Player2 = p2,
               CurrentPlayer = Red, Winner = [], IsBot = isBot\<rparr>;
          s3 = s2\<lparr>gameObjs := gameObjs s2 @ [G], games := mapPut (games s2) gameID g\<rparr>;
          s4 = s3\<lparr>playerGames := mapPut (playerGames s3) (Username (player s3 p1)) g\<rparr>;
          s5 = (if \<not> isBot
                then s4\<lparr>playerGames := mapPut (playerGames s4) (Username (player s4 p2)) g\<rparr>
                else s4);
          s6 = sendTo s5 p1 (GameStart Red (Username (player s5 p2)) Red gameID);
          s7 = (if \<not> isBot
                then sendTo s6 p2 (GameStart Yellow (Username (player s6 p1)) Red gameID)
                else s6)
      in (s7, g))"

subsection \<open>matchPlayer (main.go, lines 142-198)\<close>

text \<open>
  The rejoin loop \<^verbatim>\<open>for _, game := range gs.games\<close> over the games still to visit. Go
  visits a map in an order of its own choosing, so the order is an argument. The
  assignments are made one after the other on the heap, as in the source. \<open>None\<close> is
  leaving the loop at its end.
\<close>

definition reattach :: "GameServer \<Rightarrow> pref \<Rightarrow> pref \<Rightarrow> gref \<Rightarrow> GameServer" where
  "reattach s seat p g =
     (let s1 = setPlayer s seat ((player s seat)\<lparr>Conn := Conn (player s p)\<rparr>);
          s2 = setPlayer s1 seat ((player s1 seat)\<lparr>Disconnected := False\<rparr>);
          s3 = setPlayer s2 p ((player s2 p)\<lparr>Color := Color (player s2 seat)\<rparr>)
      in sendGameState s3 g)"

fun rejoinLoop :: "GameServer \<Rightarrow> pref \<Rightarrow> gref list \<Rightarrow> (GameServer \<times> gref) option" where
  "rejoinLoop s p [] = None"
| "rejoinLoop s p (g # rest) =
     (let G = game s g in
      if Winner G = [] then
        (if Username (player s (Player1 G)) = Username (player s p) \<and>
            Disconnected (player s (Player1 G))
         then Some (reattach s (Player1 G) p g, g)
         else if Username (player s (Player2 G)) = Username (player s p) \<and>
                 Disconnected (player s (Player2 G))
         then Some (reattach s (Player2 G) p g, g)
         else rejoinLoop s p rest)
      else rejoinLoop s p rest)"

text \<open>
  \<^verbatim>\<open>matchPlayer\<close> under the server's mutex: rejoin, else pair with the head of the waiting
  list, else wait and start the fallback goroutine. The result is the state and the
  returned \<^verbatim>\<open>*GameState\<close> (\<open>None\<close> is \<^verbatim>\<open>nil\<close>). \<^verbatim>\<open>player.Conn.WriteJSON\<close> on the waiting path
  has no nil test; a nil connection there is a panic (outer \<open>None\<close>).
\<close>

definition matchPlayer ::
  "GameServer \<Rightarrow> pref \<Rightarrow> string \<Rightarrow> gref list \<Rightarrow> (GameServer \<times> gref option) option" where
  "matchPlayer s p gameID visit =
     (case rejoinLoop s p visit of
        Some (s', g) \<Rightarrow> Some (s', Some g)
      | None \<Rightarrow>
          (case waitingPlayers s of
             opponent # rest \<Rightarrow>
               (let (s', g) = createGame (s\<lparr>waitingPlayers := rest\<rparr>) opponent p False gameID
                in Some (s', Some g))
           | [] \<Rightarrow>
               (case Conn (player s p) of
                  None \<Rightarrow> None
                | Some c \<Rightarrow>
                    (let s1 = s\<lparr>waitingPlayers := waitingPlayers s @ [p]\<rparr>;
                         s2 = writeJSON s1 c Waiting
                     in Some (s2\<lparr>timers := timers s2 @ [FallbackTimer p]\<rparr>, None)))))"

text \<open>
  The fallback goroutine after its 10 seconds: if \<open>player\<close> is still in the waiting list
  it is taken out (first occurrence, \<^verbatim>\<open>break\<close>), a bot seat is allocated and the game is
  created.
\<close>

definition fallbackTimer :: "GameServer \<Rightarrow> pref \<Rightarrow> string \<Rightarrow> GameServer" where
  "fallbackTimer s p gameID =
     (if p \<in> set (waitingPlayers s)
      then (let s1 = s\<lparr>waitingPlayers := remove1 p (waitingPlayers s)\<rparr>;
                bot = length (players s1);
                s2 = s1\<lparr>players := players s1 @
                        [\<lparr>Username = ''Bot'', Color = Yellow, Conn = None, Disconnected = False\<rparr>]\<rparr>
            in fst (createGame s2 p bot True gameID))
      else s)"

subsection \<open>HandleWebSocket (main.go, lines 92-140)\<close>

text \<open>
  One turn of the read loop for each kind of input. \<open>join\<close> allocates a new \<^verbatim>\<open>Player\<close>
  (\<^verbatim>\<open>&Player{Username: msg.Username, Conn: conn, LastSeen: time.Now()}\<close>, at the next free
  address) and stores the result of \<^verbatim>\<open>matchPlayer\<close> in \<open>game\<close>. \<open>move\<close> reads \<^verbatim>\<open>player.Username\<close>
  first: with \<open>player\<close> still nil this is a nil dereference, the handler's goroutine
  panics, net/http recovers it and the deferred \<^verbatim>\<open>conn.Close()\<close> runs, so the handler ends
  without \<^verbatim>\<open>handleDisconnect\<close>. A read error calls \<^verbatim>\<open>handleDisconnect\<close> when both variables
  are set, and ends the handler.
\<close>

definition setHandler :: "GameServer \<Rightarrow> conn \<Rightarrow> Handler \<Rightarrow> GameServer" where
  "setHandler s c h = s\<lparr>handlers := (handlers s)[c := h]\<rparr>"

definition allocPlayer :: "GameServer \<Rightarrow> conn \<Rightarrow> string \<Rightarrow> GameServer" where
  "allocPlayer s c username =
     s\<lparr>players := players s @
          [\<lparr>Username = username, Color = Empty, Conn = Some c, Disconnected = False\<rparr>]\<rparr>"

definition wsJoin :: "GameServer \<Rightarrow> conn \<Rightarrow> string \<Rightarrow> string \<Rightarrow> gref list \<Rightarrow> GameServer option" where
  "wsJoin s c username gameID visit =
     (let p = length (players s);
          s1 = allocPlayer s c username
      in (case matchPlayer s1 p gameID visit of
            None \<Rightarrow> None
          | Some (s2, res) \<Rightarrow>
              Some (setHandler s2 c ((handlers s2 ! c)\<lparr>hplayer := Some p, hgame := res\<rparr>))))"

definition wsMove :: "GameServer \<Rightarrow> conn \<Rightarrow> int \<Rightarrow> GameServer option" where
  "wsMove s c col =
     (case hplayer (handlers s ! c) of
        None \<Rightarrow> Some (setHandler s c ((handlers s ! c)\<lparr>hopen := False\<rparr>))
      | Some p \<Rightarrow>
          (let res = map_of (playerGames s) (Username (player s p));
               s1 = setHandler s c ((handlers s ! c)\<lparr>hgame := res\<rparr>)
           in (case res of
                 None \<Rightarrow> Some (writeJSON s1 c (Error ''Game not found''))
               | Some g \<Rightarrow> handleMove s1 g p col)))"

definition wsReadError :: "GameServer \<Rightarrow> conn \<Rightarrow> GameServer" where
  "wsReadError s c =
     (let h = handlers s ! c;
          s1 = (case (hplayer h, hgame h) of
                  (Some p, Some g) \<Rightarrow> handleDisconnect s p g
                | _ \<Rightarrow> s)
      in setHandler s1 c ((handlers s1 ! c)\<lparr>hopen := False\<rparr>))"

subsection \<open>The server as a transition system\<close>

text \<open>
  A run of the server is taken as a sequence of steps, each one turn of a handler's read
  loop or the body of one woken goroutine, run to its end. The source holds the server's
  mutex in \<^verbatim>\<open>matchPlayer\<close> and the fallback goroutine, and the game's mutex in \<^verbatim>\<open>handleMove\<close>,
  \<^verbatim>\<open>makeBotMove\<close>, \<^verbatim>\<open>handleDisconnect\<close> and its goroutine; two steps that hold different
  mutexes may overlap in the source, and that overlap is not modelled. An event is an
  input from outside together with what the run time chooses: a new connection; a \<open>join\<close> message (with the value of \<^verbatim>\<open>generateID()\<close> and the
  order in which the map \<^verbatim>\<open>gs.games\<close> is visited, as a permutation of its positions); a
  \<open>move\<close> message; a read error; the wake-up of the \<open>i\<close>-th sleeping goroutine (with the
  value of \<^verbatim>\<open>generateID()\<close>). Sleeping times are not modelled: a goroutine may wake up at
  any time. An event that cannot occur in a state (a message on a connection whose
  handler has ended, a wake-up of a goroutine that does not exist, an order that is no
  permutation) leaves the state as it is. \<open>None\<close> is a panic.
\<close>

datatype event =
    Connect
  | RecvJoin conn string string "nat list"
  | RecvMove conn int
  | ReadError conn
  | Fire nat string

definition connOpen :: "GameServer \<Rightarrow> conn \<Rightarrow> bool" where
  "connOpen s c = (c < length (handlers s) \<and> hopen (handlers s ! c))"

definition fire :: "GameServer \<Rightarrow> timer \<Rightarrow> string \<Rightarrow> GameServer option" where
  "fire s t gameID =
     (case t of
        FallbackTimer p \<Rightarrow> Some (fallbackTimer s p gameID)
      | BotThink g \<Rightarrow> makeBotMove s g
      | GraceTimer p g \<Rightarrow> Some (graceTimer s p g))"

fun step :: "event \<Rightarrow> GameServer \<Rightarrow> GameServer option" where
  "step Connect s =
     Some (s\<lparr>handlers := handlers s @ [\<lparr>hplayer = None, hgame = None, hopen = True\<rparr>]\<rparr>)"
| "step (RecvJoin c username gameID order) s =
     (if connOpen s c \<and> sort order = [0..<length (games s)]
      then wsJoin s c username gameID (map (\<lambda>i. snd (games s ! i)) order)
      else Some s)"
| "step (RecvMove c col) s = (if connOpen s c then wsMove s c col else Some s)"
| "step (ReadError c) s = (if connOpen s c then Some (wsReadError s c) else Some s)"
| "step (Fire i gameID) s =
     (if i < length (timers s)
      then fire (s\<lparr>timers := take i (timers s) @ drop (Suc i) (timers s)\<rparr>) (timers s ! i) gameID
      else Some s)"

fun run :: "event list \<Rightarrow> GameServer \<Rightarrow> GameServer option" where
  "run [] s = Some s"
| "run (e # es) s = (case step e s of None \<Rightarrow> None | Some s' \<Rightarrow> run es s')"

text \<open>\<^verbatim>\<open>NewGameServer\<close>: empty maps, no waiting player.\<close>

definition initServer :: GameServer where
  "initServer = \<lparr>players = [], gameObjs = [], games = [], playerGames = [],
                 waitingPlayers = [], sent = [], timers = [], handlers = []\<rparr>"

inductive reachable :: "GameServer \<Rightarrow> bool" where
  reachable_init: "reachable initServer"
| reachable_step: "reachable s \<Longrightarrow> step e s = Some s' \<Longrightarrow> reachable s'"

section \<open>Notions of the spec used in the statements\<close>

text \<open>"isFull: true iff no empty cell remains."\<close>

definition boardFull :: "Board \<Rightarrow> bool" where
  "boardFull b = (\<forall>row \<in> set b. \<forall>c \<in> set row. c \<noteq> Empty)"

text \<open>
  "The participant's identity already occupies a disconnected seat in a non-terminal
  session": the session has no result, and one of its seats carries the participant's
  name and the disconnected flag. \<open>awaySeat\<close> is that seat (seat 1 is looked at first).
\<close>

definition seatAway :: "GameServer \<Rightarrow> pref \<Rightarrow> pref \<Rightarrow> bool" where
  "seatAway s p seat =
     (Username (player s seat) = Username (player s p) \<and> Disconnected (player s seat))"

definition rejoinable :: "GameServer \<Rightarrow> pref \<Rightarrow> gref \<Rightarrow> bool" where
  "rejoinable s p g =
     (Winner (game s g) = [] \<and>
      (seatAway s p (Player1 (game s g)) \<or> seatAway s p (Player2 (game s g))))"

definition awaySeat :: "GameServer \<Rightarrow> pref \<Rightarrow> gref \<Rightarrow> pref" where
  "awaySeat s p g =
     (if seatAway s p (Player1 (game s g)) then Player1 (game s g) else Player2 (game s g))"

text \<open>What \<open>sendGameState\<close> writes: the snapshot, to each seat that is connected.\<close>

definition stateMsgs :: "GameServer \<Rightarrow> gref \<Rightarrow> (conn \<times> Message) list" where
  "stateMsgs s g =
     (let G = game s g; msg = MoveMsg (Board G) (CurrentPlayer G) in
      concat (map (\<lambda>q. if Disconnected (player s q) then []
                        else (case Conn (player s q) of None \<Rightarrow> [] | Some c \<Rightarrow> [(c, msg)]))
                  [Player1 G, Player2 G]))"

section \<open>Invariant of the reachable states\<close>

text \<open>
  What every game object of a reachable state satisfies: its board has 6 rows of 7
  cells and the gravity invariant, and its turn marker is one of the two sides. The
  game addresses stored in \<^verbatim>\<open>playerGames\<close> and captured by thinking goroutines are
  addresses of game objects.
\<close>

definition gameInv :: "GameState \<Rightarrow> bool" where
  "gameInv G = (wf_board (Board G) \<and> gravity (Board G) \<and>
                (CurrentPlayer G = Red \<or> CurrentPlayer G = Yellow))"

definition timerInv :: "nat \<Rightarrow> timer \<Rightarrow> bool" where
  "timerInv n t = (case t of BotThink g \<Rightarrow> g < n | _ \<Rightarrow> True)"

definition serverInv :: "GameServer \<Rightarrow> bool" where
  "serverInv s =
     (list_all gameInv (gameObjs s) \<and>
      list_all (\<lambda>kg. snd kg < length (gameObjs s)) (playerGames s) \<and>
      list_all (timerInv (length (gameObjs s))) (timers s))"

section \<open>Concrete boards\<close>

text \<open>
  The boards of the repository's tests (main\_test.go) and two more, used where a
  statement is evaluated on a concrete input. \<open>redRowBoard\<close>: four red discs on the
  bottom row. \<open>winBlockBoard\<close>: red threatens column 3 and yellow can win in column 6.
  \<open>winBlockBoard'\<close>: the same board after yellow's disc in column 6. \<open>fullBoard\<close>:
  every cell red, as in \<^verbatim>\<open>TestIsBoardFull\<close>.
\<close>

definition emptyRow :: "Color list" where
  "emptyRow = [Empty, Empty, Empty, Empty, Empty, Empty, Empty]"

definition redRowBoard :: Board where
  "redRowBoard = [emptyRow, emptyRow, emptyRow, emptyRow, emptyRow,
                  [Red, Red, Red, Red, Empty, Empty, Empty]]"

definition winBlockBoard :: Board where
  "winBlockBoard = [emptyRow, emptyRow, emptyRow,
                    [Empty, Empty, Empty, Empty, Empty, Empty, Yellow],
                    [Empty, Empty, Empty, Empty, Empty, Empty, Yellow],
                    [Red, Red, Red, Empty, Empty, Empty, Yellow]]"

definition winBlockBoard' :: Board where
  "winBlockBoard' = [emptyRow, emptyRow,
                    [Empty, Empty, Empty, Empty, Empty, Empty, Yellow],
                    [Empty, Empty, Empty, Empty, Empty, Empty, Yellow],
                    [Empty, Empty, Empty, Empty, Empty, Empty, Yellow],
                    [Red, Red, Red, Empty, Empty, Empty, Yellow]]"

definition redRow :: "Color list" where
  "redRow = [Red, Red, Red, Red, Red, Red, Red]"

definition fullBoard :: Board where
  "fullBoard = [redRow, redRow, redRow, redRow, redRow, redRow]"

text \<open>
  The other boards of main\_test.go: \<open>yellowColBoard\<close> and \<open>redDiagBoard\<close> of
  \<^verbatim>\<open>TestCheckWinner\<close>, \<open>redThreeBoard\<close> and \<open>yellowThreeBoard\<close> of \<^verbatim>\<open>TestBotMove\<close>, and
  the empty board.
\<close>

definition emptyBoard :: Board where
  "emptyBoard = [emptyRow, emptyRow, emptyRow, emptyRow, emptyRow, emptyRow]"

definition yellowColBoard :: Board where
  "yellowColBoard = [emptyRow, emptyRow,
                     [Yellow, Empty, Empty, Empty, Empty, Empty, Empty],
                     [Yellow, Empty, Empty, Empty, Empty, Empty, Empty],
                     [Yellow, Empty, Empty, Empty, Empty, Empty, Empty],
                     [Yellow, Empty, Empty, Empty, Empty, Empty, Empty]]"

definition redDiagBoard :: Board where
  "redDiagBoard = [emptyRow, emptyRow,
                   [Red, Empty, Empty, Empty, Empty, Empty, Empty],
                   [Empty, Red, Empty, Empty, Empty, Empty, Empty],
                   [Empty, Empty, Red, Empty, Empty, Empty, Empty],
                   [Empty, Empty, Empty, Red, Empty, Empty, Empty]]"

definition redThreeBoard :: Board where
  "redThreeBoard = [emptyRow, emptyRow, emptyRow, emptyRow, emptyRow,
                    [Red, Red, Red, Empty, Empty, Empty, Empty]]"

definition yellowThreeBoard :: Board where
  "yellowThreeBoard = [emptyRow, emptyRow, emptyRow, emptyRow, emptyRow,
                       [Yellow, Yellow, Yellow, Empty, Empty, Empty, Empty]]"

section \<open>Concrete sessions and runs\<close>

text \<open>
  \<open>twoSeats b turn\<close>: X (red, connection 0) and Y (yellow, connection 1) in one game
  with board \<open>b\<close> and turn marker \<open>turn\<close>. \<open>midGame\<close>: three discs each on the bottom
  row, red to move. \<open>lastMoveGame\<close>: the last move of a game that ends in a draw, yellow
  to move into the only empty cell. \<open>fullColGame\<close>: column 0 is full, yellow to move.
  \<open>awayGame\<close>: \<open>midGame\<close> after X's connection failed, with the \<^verbatim>\<open>Player\<close> object of X's
  new connection 2 allocated. \<open>waitingState\<close>: X waits and a second connection is open.
\<close>

definition seatX :: Player where
  "seatX = \<lparr>Username = ''X'', Color = Red, Conn = Some 0, Disconnected = False\<rparr>"

definition seatY :: Player where
  "seatY = \<lparr>Username = ''Y'', Color = Yellow, Conn = Some 1, Disconnected = False\<rparr>"

definition midBoard :: Board where
  "midBoard = [emptyRow, emptyRow, emptyRow, emptyRow, emptyRow,
               [Red, Red, Red, Empty, Yellow, Yellow, Yellow]]"

definition lastMoveBoard :: Board where
  "lastMoveBoard =
     [[Empty, Red, Yellow, Red, Red, Yellow, Red],
      [Red, Yellow, Yellow, Red, Yellow, Yellow, Red],
      [Red, Red, Red, Yellow, Red, Red, Yellow],
      [Yellow, Yellow, Red, Yellow, Red, Yellow, Yellow],
      [Yellow, Red, Yellow, Yellow, Red, Red, Red],
      [Yellow, Yellow, Yellow, Red, Yellow, Red, Red]]"

definition fullColBoard :: Board where
  "fullColBoard =
     [[Red, Empty, Empty, Empty, Empty, Empty, Empty],
      [Yellow, Empty, Empty, Empty, Empty, Empty, Empty],
      [Red, Empty, Empty, Empty, Empty, Empty, Empty],
      [Yellow, Empty, Empty, Empty, Empty, Empty, Empty],
      [Red, Empty, Empty, Empty, Empty, Empty, Empty],
      [Yellow, Empty, Empty, Empty, Empty, Empty, Empty]]"

definition twoSeats :: "Board \<Rightarrow> Color \<Rightarrow> GameServer" where
  "twoSeats b turn =
     \<lparr>players = [seatX, seatY],
      gameObjs = [\<lparr>ID = ''game0001'', Board = b, Player1 = 0, Player2 = 1,
                   CurrentPlayer = turn, Winner = [], IsBot = False\<rparr>],
      games = [(''game0001'', 0)], playerGames = [(''X'', 0), (''Y'', 0)],
      waitingPlayers = [], sent = [], timers = [],
      handlers = [\<lparr>hplayer = Some 0, hgame = Some 0, hopen = True\<rparr>,
                  \<lparr>hplayer = Some 1, hgame = Some 0, hopen = True\<rparr>]\<rparr>"

definition midGame :: GameServer where
  "midGame = twoSeats midBoard Red"

definition lastMoveGame :: GameServer where
  "lastMoveGame = twoSeats lastMoveBoard Yellow"

definition fullColGame :: GameServer where
  "fullColGame = twoSeats fullColBoard Yellow"

definition awayGame :: GameServer where
  "awayGame = midGame\<lparr>players := [seatX\<lparr>Disconnected := True\<rparr>, seatY,
       \<lparr>Username = ''X'', Color = Empty, Conn = Some 2, Disconnected = False\<rparr>]\<rparr>"

definition waitingRun :: "event list" where
  "waitingRun = [Connect, RecvJoin 0 ''X'' ''game0000'' [], Connect]"

definition waitingState :: GameServer where
  "waitingState =
     \<lparr>players = [\<lparr>Username = ''X'', Color = Empty, Conn = Some 0, Disconnected = False\<rparr>],
      gameObjs = [], games = [], playerGames = [], waitingPlayers = [0],
      sent = [(0, Waiting)], timers = [FallbackTimer 0],
      handlers = [\<lparr>hplayer = Some 0, hgame = None, hopen = True\<rparr>,
                  \<lparr>hplayer = None, hgame = None, hopen = True\<rparr>]\<rparr>"

text \<open>
  \<open>forfeitRun\<close>: X and Y join and are paired, X moves in column 0, X's connection
  fails, X joins again on connection 2 (the only game is visited), connection 2 fails,
  and the three sleeping goroutines (X's fallback, the two grace periods) wake up in the
  order in which they were started.
\<close>

definition forfeitRun :: "event list" where
  "forfeitRun =
     [Connect, RecvJoin 0 ''X'' ''game0000'' [],
      Connect, RecvJoin 1 ''Y'' ''game0001'' [],
      RecvMove 0 0,
      ReadError 0,
      Connect, RecvJoin 2 ''X'' ''game0002'' [0],
      ReadError 2,
      Fire 0 ''game0003'', Fire 0 ''game0004'', Fire 0 ''game0005'']"

text \<open>
  \<open>joinedRun\<close>: X and Y join and are paired (X is red and holds the turn).
  \<open>pairedRun\<close>: then X moves in column 3.
\<close>

definition joinedRun :: "event list" where
  "joinedRun =
     [Connect, RecvJoin 0 ''X'' ''game0000'' [],
      Connect, RecvJoin 1 ''Y'' ''game0001'' []]"

definition pairedRun :: "event list" where
  "pairedRun = joinedRun @ [RecvMove 0 3]"

section \<open>The repository's tests on the model\<close>

text \<open>
  The assertions of main\_test.go, evaluated on the definitions above:
  \<^verbatim>\<open>TestCheckWinner\<close> (horizontal, vertical, diagonal), \<^verbatim>\<open>TestBotMove\<close> (block at column
  3, win at column 3) and \<^verbatim>\<open>TestIsBoardFull\<close>.
\<close>

lemma test_checkWinner:
  "checkWinner redRowBoard 5 3 = Some True"
  "checkWinner yellowColBoard 5 0 = Some True"
  "checkWinner redDiagBoard 5 3 = Some True"
  by code_simp+

lemma test_getBotMove:
  "getBotMove redThreeBoard = Some (3, redThreeBoard)"
  "getBotMove yellowThreeBoard = Some (3, yellowThreeBoard)"
  by code_simp+

lemma test_isBoardFull:
  "\<not> isBoardFull emptyBoard"
  "isBoardFull fullBoard"
  by code_simp+

section \<open>Properties of the board engine\<close>

lemma Yellow_ne: "Yellow \<noteq> Empty"
  by (simp add: Yellow_def Empty_def)

lemma Red_ne: "Red \<noteq> Empty"
  by (simp add: Red_def Empty_def)

lemma cell_wf:
  "wf_board b \<Longrightarrow> inGrid r c \<Longrightarrow> cell b r c = Some (b ! nat r ! nat c)"
  by (auto simp: wf_board_def inGrid_def cell_def list_all_iff)

lemma countLoop_step:
  assumes "wf_board b"
  shows "countLoop b color row col dr dc (i # rest) n =
     (if holds b color (row + dr * i) (col + dc * i)
      then countLoop b color row col dr dc rest (n + 1) else Some n)"
proof (cases "inGrid (row + dr * i) (col + dc * i)")
  case True
  then have "cell b (row + dr * i) (col + dc * i) = Some (b ! nat (row + dr * i) ! nat (col + dc * i))"
    using assms by (rule cell_wf[rotated])
  with True show ?thesis
    by (auto simp: holds_def inGrid_def Let_def)
next
  case False
  then show ?thesis
    by (auto simp: holds_def inGrid_def Let_def)
qed

text \<open>
  On one axis the two inner loops never panic on a 6x7 board, and together they count
  at least four exactly when one of the four windows through the cell is filled.
\<close>

lemma axis_count:
  assumes wf: "wf_board b" and c: "holds b color row col"
  shows "\<exists>c1 c2. countLoop b color row col dr dc [1, 2, 3] 1 = Some c1 \<and>
            countLoop b color row col (- dr) (- dc) [1, 2, 3] c1 = Some c2 \<and>
            (c2 \<ge> 4) = list_ex (\<lambda>k. window b color row col (dr, dc) k) [0, 1, 2, 3]"
  using c
  by (simp add: countLoop_step[OF wf] window_def algebra_simps del: countLoop.simps(2))

lemma dirLoop_windows:
  assumes wf: "wf_board b" and c: "holds b color row col"
  shows "dirLoop b color row col ds =
     Some (list_ex (\<lambda>ax. list_ex (\<lambda>k. window b color row col ax k) [0, 1, 2, 3]) ds)"
proof (induction ds)
  case Nil
  show ?case by simp
next
  case (Cons ax ds)
  obtain dr dc where ax: "ax = (dr, dc)" by (cases ax)
  from axis_count[OF wf c, of dr dc] obtain c1 c2 where
    "countLoop b color row col dr dc [1, 2, 3] 1 = Some c1"
    "countLoop b color row col (- dr) (- dc) [1, 2, 3] c1 = Some c2"
    "(c2 \<ge> 4) = list_ex (\<lambda>k. window b color row col (dr, dc) k) [0, 1, 2, 3]"
    by blast
  with Cons.IH show ?case
    by (simp add: ax del: countLoop.simps)
qed

lemma checkWinner_wf:
  assumes "wf_board b" and "inGrid row col" and "cell b row col \<noteq> Some Empty"
  shows "checkWinner b row col = Some (fourInLine b row col)"
proof -
  obtain color where col: "cell b row col = Some color"
    using cell_wf[OF assms(1,2)] by blast
  with assms(3) have ne: "color \<noteq> Empty" by auto
  have "holds b color row col"
    using col assms(2) by (simp add: holds_def)
  from dirLoop_windows[OF assms(1) this, of directions] show ?thesis
    by (simp add: checkWinner_def fourInLine_def col ne directions_def axes_def)
qed

text \<open>
  Claim C1. For every 6x7 board and every cell \<open>(row, col)\<close> of the grid that holds a
  non-empty color, \<open>checkWinner\<close> returns (it does not panic), and it returns true if
  and only if one of the four axes through the cell has four contiguous cells of that
  color that include the cell; a cell outside the grid holds no color, so it ends the
  run in its direction.
\<close>

theorem checkWinner_iff_fourInLine:
  assumes "wf_board b" and "inGrid row col" and "cell b row col \<noteq> Some Empty"
  shows "checkWinner b row col = Some (fourInLine b row col)"
  using assms by (rule checkWinner_wf)

lemma wf_redRowBoard: "wf_board redRowBoard"
  by (simp add: wf_board_def redRowBoard_def emptyRow_def ROWS_def COLS_def)

lemma wf_winBlockBoard: "wf_board winBlockBoard"
  by (simp add: wf_board_def winBlockBoard_def emptyRow_def ROWS_def COLS_def)

lemma wf_fullBoard: "wf_board fullBoard"
  by (simp add: wf_board_def fullBoard_def redRow_def ROWS_def COLS_def)

lemma gravity_winBlockBoard: "gravity winBlockBoard"
  by code_simp

theorem checkWinner_iff_fourInLine_witness:
  "wf_board redRowBoard \<and> inGrid 5 3 \<and> cell redRowBoard 5 3 \<noteq> Some Empty \<and>
   checkWinner redRowBoard 5 3 = Some True \<and> fourInLine redRowBoard 5 3"
proof -
  have h2: "inGrid 5 3" by (simp add: inGrid_def ROWS_def COLS_def)
  have h3: "cell redRowBoard 5 3 \<noteq> Some Empty"
    by (simp add: cell_def redRowBoard_def Red_def Empty_def)
  have h4: "fourInLine redRowBoard 5 3" by code_simp
  show ?thesis
    using wf_redRowBoard h2 h3 h4 checkWinner_iff_fourInLine[OF wf_redRowBoard h2 h3] by simp
qed

subsection \<open>Row search, placement and canWin\<close>

lemma findRow_wf:
  assumes "wf_board b" and "0 \<le> col" and "col < COLS"
  shows "findRow b col = Some (case lowestEmpty b col of None \<Rightarrow> - 1 | Some r \<Rightarrow> r)"
proof -
  have c: "\<And>r. 0 \<le> r \<Longrightarrow> r < 6 \<Longrightarrow> cell b r col = Some (b ! nat r ! nat col)"
    using assms by (intro cell_wf) (auto simp: inGrid_def ROWS_def)
  show ?thesis
    by (simp add: findRow_def lowestEmpty_def ROWS_def eval_nat_numeral c)
qed

lemma lowestEmpty_Some:
  "lowestEmpty b col = Some r \<Longrightarrow> 0 \<le> r \<and> r < ROWS \<and> cell b r col = Some Empty"
  by (auto simp: lowestEmpty_def ROWS_def split: if_splits)

lemma lowestEmpty_None:
  "lowestEmpty b col = None \<longleftrightarrow> \<not> hasRoom b col"
  by (auto simp: lowestEmpty_def hasRoom_def split: if_splits)

lemma lowestEmpty_lowest:
  assumes "lowestEmpty b col = Some r" and "r < r'" and "r' < ROWS"
  shows "cell b r' col \<noteq> Some Empty"
proof -
  have "0 \<le> r" using lowestEmpty_Some[OF assms(1)] by simp
  with assms(2,3) have "r' = 1 \<or> r' = 2 \<or> r' = 3 \<or> r' = 4 \<or> r' = 5"
    by (auto simp: ROWS_def)
  with assms(1,2) show ?thesis
    by (auto simp: lowestEmpty_def split: if_splits)
qed

lemma setCell_wf:
  assumes "wf_board b" and "inGrid r c"
  shows "setCell b r c v = Some (b[nat r := (b ! nat r)[nat c := v]])"
  using assms by (auto simp: wf_board_def inGrid_def setCell_def list_all_iff)

lemma wf_board_update:
  assumes "wf_board b" and "inGrid r c"
  shows "wf_board (b[nat r := (b ! nat r)[nat c := v]])"
proof -
  have "nat r < length b" using assms by (auto simp: wf_board_def inGrid_def)
  then have "int (length (b ! nat r)) = COLS"
    using assms(1) by (auto simp: wf_board_def list_all_iff)
  with assms(1) show ?thesis
    by (auto simp: wf_board_def list_all_iff dest!: set_update_subset_insert[THEN subsetD])
qed

lemma setCell_restore:
  assumes "wf_board b" and "inGrid r c" and "cell b r c = Some Empty"
  shows "setCell (b[nat r := (b ! nat r)[nat c := v]]) r c Empty = Some b"
proof -
  have l: "nat r < length b" using assms by (auto simp: wf_board_def inGrid_def)
  then have l2: "int (length (b ! nat r)) = COLS"
    using assms(1) by (auto simp: wf_board_def list_all_iff)
  have "b ! nat r ! nat c = Empty" using assms cell_wf[OF assms(1,2)] by simp
  then have "(b ! nat r)[nat c := Empty] = b ! nat r"
    by (metis list_update_id)
  with l l2 assms(2) show ?thesis
    by (simp add: setCell_def inGrid_def list_update_same_conv)
qed

lemma cell_update_same:
  assumes "wf_board b" and "inGrid r c"
  shows "cell (b[nat r := (b ! nat r)[nat c := v]]) r c = Some v"
  using assms by (auto simp: wf_board_def inGrid_def cell_def list_all_iff)

lemma canWin_board:
  assumes wf: "wf_board b" and "0 \<le> col" and "col < COLS"
  shows "map_option snd (canWin b col color) = Some b"
proof (cases "lowestEmpty b col")
  case None
  then show ?thesis
    by (simp add: canWin_def findRow_wf[OF assms])
next
  case (Some r)
  have g: "inGrid r col"
    using lowestEmpty_Some[OF Some] assms by (simp add: inGrid_def)
  have e: "cell b r col = Some Empty"
    using lowestEmpty_Some[OF Some] by simp
  have r: "r \<noteq> - 1" using g by (auto simp: inGrid_def)
  let ?b1 = "b[nat r := (b ! nat r)[nat col := color]]"
  have wf1: "wf_board ?b1" using wf g by (rule wf_board_update)
  obtain w where w: "checkWinner ?b1 r col = Some w"
  proof (cases "color = Empty")
    case True
    then have "checkWinner ?b1 r col = Some False"
      using cell_update_same[OF wf g, of color] by (simp add: checkWinner_def)
    then show ?thesis using that by blast
  next
    case False
    then have "cell ?b1 r col \<noteq> Some Empty"
      using cell_update_same[OF wf g, of color] by simp
    from checkWinner_wf[OF wf1 g this] show ?thesis using that by blast
  qed
  show ?thesis
    by (simp add: canWin_def findRow_wf[OF assms] Some r setCell_wf[OF wf g] w
        setCell_restore[OF wf g e])
qed

lemma canWin_wouldWin:
  assumes wf: "wf_board b" and "0 \<le> col" and "col < COLS" and ne: "color \<noteq> Empty"
  shows "canWin b col color = Some (wouldWin b col color, b)"
proof (cases "lowestEmpty b col")
  case None
  then show ?thesis
    by (simp add: canWin_def findRow_wf[OF assms(1-3)] wouldWin_def)
next
  case (Some r)
  have g: "inGrid r col"
    using lowestEmpty_Some[OF Some] assms by (simp add: inGrid_def)
  have e: "cell b r col = Some Empty"
    using lowestEmpty_Some[OF Some] by simp
  have r: "r \<noteq> - 1" using g by (auto simp: inGrid_def)
  let ?b1 = "b[nat r := (b ! nat r)[nat col := color]]"
  have wf1: "wf_board ?b1" using wf g by (rule wf_board_update)
  have "cell ?b1 r col \<noteq> Some Empty"
    using cell_update_same[OF wf g, of color] ne by simp
  from checkWinner_wf[OF wf1 g this] have w: "checkWinner ?b1 r col = Some (fourInLine ?b1 r col)" .
  show ?thesis
    by (simp add: canWin_def findRow_wf[OF assms(1-3)] Some r setCell_wf[OF wf g] w
        setCell_restore[OF wf g e] wouldWin_def)
qed

text \<open>
  Claim C8. For every 6x7 board, every column index and every color (yellow for the
  win-now test, red for the block test), \<open>canWin\<close> returns and the board it leaves is
  the board it was given.
\<close>

theorem canWin_restores_board:
  assumes "wf_board b" and "0 \<le> col" and "col < COLS"
  shows "map_option snd (canWin b col color) = Some b"
  using assms by (rule canWin_board)


theorem canWin_restores_board_witness:
  "wf_board winBlockBoard \<and> (0::int) \<le> 6 \<and> 6 < COLS \<and>
   canWin winBlockBoard 6 Yellow = Some (True, winBlockBoard) \<and>
   canWin winBlockBoard 3 Red = Some (True, winBlockBoard)"
proof -
  have c: "(0::int) \<le> 6" "6 < COLS" "(0::int) \<le> 3" "3 < COLS" by (simp_all add: COLS_def)
  have y: "map_option fst (canWin winBlockBoard 6 Yellow) = Some True" by code_simp
  have r: "map_option fst (canWin winBlockBoard 3 Red) = Some True" by code_simp
  from canWin_restores_board[OF wf_winBlockBoard c(1,2), of Yellow] y
  have "canWin winBlockBoard 6 Yellow = Some (True, winBlockBoard)" by auto
  moreover from canWin_restores_board[OF wf_winBlockBoard c(3,4), of Red] r
  have "canWin winBlockBoard 3 Red = Some (True, winBlockBoard)" by auto
  ultimately show ?thesis using wf_winBlockBoard c by simp
qed

subsection \<open>Gravity\<close>

lemma cell_update:
  assumes "wf_board b" and "inGrid r c"
  shows "cell (b[nat r := (b ! nat r)[nat c := v]]) r' c' =
         (if r' = r \<and> c' = c then Some v else cell b r' c')"
proof -
  have l: "nat r < length b" "0 \<le> r" "0 \<le> c"
    using assms by (auto simp: wf_board_def inGrid_def)
  then have l2: "int (length (b ! nat r)) = COLS"
    using assms(1) by (auto simp: wf_board_def list_all_iff)
  have c: "c < COLS" using assms(2) by (simp add: inGrid_def)
  show ?thesis
  proof (cases "r' = r")
    case True
    show ?thesis
    proof (cases "c' = c")
      case True
      with \<open>r' = r\<close> l l2 c show ?thesis by (simp add: cell_def)
    next
      case False
      then have "0 \<le> c' \<Longrightarrow> nat c \<noteq> nat c'" using l(3) by simp
      with \<open>r' = r\<close> False l show ?thesis by (simp add: cell_def)
    qed
  next
    case False
    then have "0 \<le> r' \<Longrightarrow> nat r \<noteq> nat r'" using l(2) by simp
    with False show ?thesis by (simp add: cell_def)
  qed
qed

lemma int_range5: "(0 \<le> r \<and> r < 5) = (r \<in> set [0, 1, 2, 3, 4 :: int])"
  by auto

lemma int_range6: "(0 \<le> r \<and> r < 6) = (r \<in> set [0, 1, 2, 3, 4, 5 :: int])"
  by auto

lemma int_range7: "(0 \<le> c \<and> c < 7) = (c \<in> set [0, 1, 2, 3, 4, 5, 6 :: int])"
  by auto

lemma gravity_iff:
  "gravity b \<longleftrightarrow>
   (\<forall>c r. (0 \<le> c \<and> c < 7) \<and> (0 \<le> r \<and> r < 5) \<longrightarrow>
      cell b r c = Some Empty \<or> cell b (r + 1) c \<noteq> Some Empty)"
  unfolding gravity_def list_all_iff int_range5 int_range7 by blast

lemma hasRoom_iff:
  "hasRoom b col \<longleftrightarrow> (\<exists>r. (0 \<le> r \<and> r < 6) \<and> cell b r col = Some Empty)"
  unfolding hasRoom_def list_ex_iff int_range6 by blast

lemma gravity_place:
  assumes wf: "wf_board b" and g: "gravity b" and low: "lowestEmpty b col = Some row"
    and col: "0 \<le> col" "col < COLS" and ne: "color \<noteq> Empty"
  shows "gravity (b[nat row := (b ! nat row)[nat col := color]])"
proof -
  have ig: "inGrid row col"
    using lowestEmpty_Some[OF low] col by (simp add: inGrid_def)
  have above: "row < 5 \<Longrightarrow> cell b (row + 1) col \<noteq> Some Empty"
    using lowestEmpty_lowest[OF low, of "row + 1"] by (simp add: ROWS_def)
  show ?thesis
    unfolding gravity_iff
  proof (intro allI impI)
    fix c r :: int
    assume a: "(0 \<le> c \<and> c < 7) \<and> (0 \<le> r \<and> r < 5)"
    from g a have old: "cell b r c = Some Empty \<or> cell b (r + 1) c \<noteq> Some Empty"
      unfolding gravity_iff by blast
    show "cell (b[nat row := (b ! nat row)[nat col := color]]) r c = Some Empty \<or>
          cell (b[nat row := (b ! nat row)[nat col := color]]) (r + 1) c \<noteq> Some Empty"
      using old above a ne by (auto simp: cell_update[OF wf ig])
  qed
qed

lemma gravity_top:
  assumes g: "gravity b" and col: "0 \<le> col" "col < COLS"
  shows "hasRoom b col \<longleftrightarrow> cell b 0 col = Some Empty"
proof
  assume "cell b 0 col = Some Empty"
  then show "hasRoom b col" by (simp add: hasRoom_def)
next
  assume "hasRoom b col"
  have up: "\<And>r. 0 \<le> r \<Longrightarrow> r < 5 \<Longrightarrow> cell b (r + 1) col = Some Empty \<Longrightarrow> cell b r col = Some Empty"
    using g col unfolding gravity_iff COLS_def by blast
  from up[of 0] up[of 1] up[of 2] up[of 3] up[of 4] \<open>hasRoom b col\<close>
  show "cell b 0 col = Some Empty"
    by (auto simp: hasRoom_def)
qed

lemma place_eq:
  assumes wf: "wf_board b" and col: "0 \<le> col" "col < COLS"
  shows "place b col color =
     (case lowestEmpty b col of
        None \<Rightarrow> Some (- 1, b)
      | Some row \<Rightarrow> Some (row, b[nat row := (b ! nat row)[nat col := color]]))"
proof (cases "lowestEmpty b col")
  case None
  then show ?thesis by (simp add: place_def findRow_wf[OF assms])
next
  case (Some row)
  have ig: "inGrid row col"
    using lowestEmpty_Some[OF Some] col by (simp add: inGrid_def)
  then have "row \<noteq> - 1" by (auto simp: inGrid_def)
  then show ?thesis
    by (simp add: place_def findRow_wf[OF assms] Some setCell_wf[OF wf ig])
qed

subsection \<open>getBotMove\<close>

lemma winLoop_find:
  assumes wf: "wf_board b" and ne: "color \<noteq> Empty"
  shows "list_all (\<lambda>c. 0 \<le> c \<and> c < COLS) cs \<Longrightarrow>
         winLoop b color cs = Some (find (\<lambda>c. wouldWin b c color) cs, b)"
proof (induction cs)
  case Nil
  show ?case by simp
next
  case (Cons c cs)
  then have "canWin b c color = Some (wouldWin b c color, b)"
    using canWin_wouldWin[OF wf _ _ ne] by simp
  with Cons show ?case by simp
qed

lemma isColumnAvailable_wf:
  assumes "wf_board b"
  shows "isColumnAvailable b col = Some (topEmpty b col)"
proof (cases "0 \<le> col \<and> col < COLS")
  case True
  then have "inGrid 0 col" by (simp add: inGrid_def ROWS_def)
  from cell_wf[OF assms this] True show ?thesis
    by (simp add: isColumnAvailable_def topEmpty_def)
next
  case False
  then show ?thesis by (auto simp: isColumnAvailable_def topEmpty_def)
qed

lemma availLoop_find:
  assumes "wf_board b"
  shows "availLoop b cs = Some (find (topEmpty b) cs)"
  by (induction cs) (simp_all add: isColumnAvailable_wf[OF assms])

lemma allCols_range: "list_all (\<lambda>c. 0 \<le> c \<and> c < COLS) allCols"
  by (simp add: allCols_def COLS_def)

lemma getBotMove_code:
  assumes wf: "wf_board b"
  shows "getBotMove b = Some
     (case find (\<lambda>c. wouldWin b c Yellow) allCols of
        Some c \<Rightarrow> c
      | None \<Rightarrow>
          (case find (\<lambda>c. wouldWin b c Red) allCols of
             Some c \<Rightarrow> c
           | None \<Rightarrow>
               if topEmpty b 3 then 3
               else (case find (topEmpty b) [2, 4, 1, 5, 0, 6] of
                       Some c \<Rightarrow> c
                     | None \<Rightarrow> - 1)), b)"
  by (simp add: getBotMove_def winLoop_find[OF wf Yellow_ne allCols_range]
      winLoop_find[OF wf Red_ne allCols_range] isColumnAvailable_wf[OF wf]
      availLoop_find[OF wf] split: option.split)

lemma topEmpty_hasRoom:
  assumes "gravity b" and "0 \<le> col" and "col < COLS"
  shows "topEmpty b col = hasRoom b col"
  using gravity_top[OF assms] assms(2,3) by (simp add: topEmpty_def)

text \<open>
  Claim C3. On every board of the data model (6x7, gravity invariant; the board of
  every game of a reachable state is one, \<open>reachable_gravity\<close> below) \<open>getBotMove\<close>
  returns the column the spec's decision order gives for own side yellow and opponent
  red: the leftmost winning column, else the leftmost blocking column, else column 3 if
  it has room, else the first of 2, 4, 1, 5, 0, 6 with room, else \<open>-1\<close>; and it leaves
  the board as it found it. On \<open>winBlockBoard\<close> a win (column 6) and a block (column 3)
  are both there, and the win is taken.
\<close>

theorem getBotMove_decision_order:
  assumes wf: "wf_board b" and g: "gravity b"
  shows "getBotMove b = Some (chooseColumn b Yellow Red, b)"
proof -
  have t: "\<And>c. 0 \<le> c \<Longrightarrow> c < COLS \<Longrightarrow> topEmpty b c = hasRoom b c"
    using g by (rule topEmpty_hasRoom)
  have t': "topEmpty b 0 = hasRoom b 0" "topEmpty b 1 = hasRoom b 1" "topEmpty b 2 = hasRoom b 2"
    "topEmpty b 3 = hasRoom b 3" "topEmpty b 4 = hasRoom b 4" "topEmpty b 5 = hasRoom b 5"
    "topEmpty b 6 = hasRoom b 6"
    by (simp_all add: t COLS_def)
  show ?thesis
    by (simp add: getBotMove_code[OF wf] chooseColumn_def allCols_def t')
qed

theorem getBotMove_decision_order_witness:
  "wf_board winBlockBoard \<and> gravity winBlockBoard \<and>
   wouldWin winBlockBoard 3 Red \<and> wouldWin winBlockBoard 6 Yellow \<and>
   chooseColumn winBlockBoard Yellow Red = 6 \<and>
   getBotMove winBlockBoard = Some (6, winBlockBoard)"
proof -
  have a: "wouldWin winBlockBoard 3 Red" by code_simp
  have b: "wouldWin winBlockBoard 6 Yellow" by code_simp
  have c: "chooseColumn winBlockBoard Yellow Red = 6" by code_simp
  show ?thesis
    using getBotMove_decision_order[OF wf_winBlockBoard gravity_winBlockBoard]
      wf_winBlockBoard gravity_winBlockBoard a b c by simp
qed

lemma wouldWin_findRow:
  assumes wf: "wf_board b" and "wouldWin b c color" and "0 \<le> c" "c < COLS"
  shows "\<exists>r. findRow b c = Some r \<and> 0 \<le> r \<and> r < ROWS \<and> cell b r c = Some Empty"
proof -
  from assms(2) obtain r where r: "lowestEmpty b c = Some r"
    by (auto simp: wouldWin_def split: option.splits)
  with lowestEmpty_Some[OF r] show ?thesis
    by (simp add: findRow_wf[OF wf assms(3,4)])
qed

lemma topEmpty_findRow:
  assumes wf: "wf_board b" and "topEmpty b c"
  shows "\<exists>r. findRow b c = Some r \<and> 0 \<le> r \<and> r < ROWS \<and> cell b r c = Some Empty"
proof -
  from assms(2) have c: "0 \<le> c" "c < COLS" and "hasRoom b c"
    by (auto simp: topEmpty_def hasRoom_def)
  then obtain r where r: "lowestEmpty b c = Some r"
    using lowestEmpty_None[of b c] by auto
  with lowestEmpty_Some[OF r] show ?thesis
    by (simp add: findRow_wf[OF wf c])
qed


lemma wouldWin_column_ok:
  assumes wf: "wf_board b" and w: "wouldWin b c color" and c: "0 \<le> c" "c < COLS"
  shows "c \<noteq> - 1 \<and> 0 \<le> c \<and> c < COLS \<and>
         (\<exists>r. findRow b c = Some r \<and> r \<noteq> - 1 \<and> cell b r c = Some Empty) \<and>
         (gravity b \<longrightarrow> cell b 0 c = Some Empty)"
proof -
  from wouldWin_findRow[OF wf w c] obtain r where
    r: "findRow b c = Some r" "0 \<le> r" "r < ROWS" "cell b r c = Some Empty" by blast
  then have "hasRoom b c" unfolding hasRoom_iff ROWS_def by blast
  then have "gravity b \<longrightarrow> cell b 0 c = Some Empty"
    using gravity_top[OF _ c] by blast
  with r c show ?thesis by auto
qed

lemma topEmpty_column_ok:
  assumes wf: "wf_board b" and t: "topEmpty b c"
  shows "c \<noteq> - 1 \<and> 0 \<le> c \<and> c < COLS \<and>
         (\<exists>r. findRow b c = Some r \<and> r \<noteq> - 1 \<and> cell b r c = Some Empty) \<and>
         (gravity b \<longrightarrow> cell b 0 c = Some Empty)"
proof -
  from topEmpty_findRow[OF wf t] obtain r where
    r: "findRow b c = Some r" "0 \<le> r" "r < ROWS" "cell b r c = Some Empty" by blast
  with t show ?thesis by (auto simp: topEmpty_def)
qed

lemma getBotMove_result:
  assumes wf: "wf_board b"
  shows "\<exists>c. getBotMove b = Some (c, b) \<and>
           (c = - 1 \<longrightarrow> list_all (\<lambda>k. cell b 0 k \<noteq> Some Empty) allCols) \<and>
           (c \<noteq> - 1 \<longrightarrow> 0 \<le> c \<and> c < COLS \<and>
              (\<exists>r. findRow b c = Some r \<and> r \<noteq> - 1 \<and> cell b r c = Some Empty) \<and>
              (gravity b \<longrightarrow> cell b 0 c = Some Empty))"
proof (cases "find (\<lambda>c. wouldWin b c Yellow) allCols")
  case (Some c)
  then have "wouldWin b c Yellow" and "c \<in> set allCols"
    by (auto simp: find_Some_iff)
  then have "wouldWin b c Yellow" "0 \<le> c" "c < COLS"
    using allCols_range by (auto simp: list_all_iff)
  from wouldWin_column_ok[OF wf this] show ?thesis
    by (simp add: getBotMove_code[OF wf] Some)
next
  case n1: None
  show ?thesis
  proof (cases "find (\<lambda>c. wouldWin b c Red) allCols")
    case (Some c)
    then have "wouldWin b c Red" and "c \<in> set allCols"
      by (auto simp: find_Some_iff)
    then have "wouldWin b c Red" "0 \<le> c" "c < COLS"
      using allCols_range by (auto simp: list_all_iff)
    from wouldWin_column_ok[OF wf this] show ?thesis
      by (simp add: getBotMove_code[OF wf] n1 Some)
  next
    case n2: None
    show ?thesis
    proof (cases "topEmpty b 3")
      case True
      from topEmpty_column_ok[OF wf this] show ?thesis
        by (simp add: getBotMove_code[OF wf] n1 n2 True)
    next
      case False
      show ?thesis
      proof (cases "find (topEmpty b) [2, 4, 1, 5, 0, 6]")
        case (Some c)
        then have "topEmpty b c" unfolding find_Some_iff by blast
        from topEmpty_column_ok[OF wf this] show ?thesis
          by (simp add: getBotMove_code[OF wf] n1 n2 False Some del: find.simps)
      next
        case None
        then have "\<forall>k\<in>set [2, 4, 1, 5, 0, 6]. \<not> topEmpty b k"
          by (simp only: find_None_iff) blast
        with False have "list_all (\<lambda>k. cell b 0 k \<noteq> Some Empty) allCols"
          by (simp add: allCols_def topEmpty_def COLS_def)
        then show ?thesis
          by (simp add: getBotMove_code[OF wf] n1 n2 False None del: find.simps)
      qed
    qed
  qed
qed

text \<open>
  Claim C10. On every 6x7 board \<open>getBotMove\<close> returns a column \<open>c\<close> and leaves the
  board unchanged. If \<open>c = -1\<close>, the top cell of each of the seven columns is occupied.
  If \<open>c \<noteq> -1\<close>, then \<open>c\<close> is a column index, the bottom-up row search of
  \<open>makeBotMove\<close> on column \<open>c\<close> finds an empty cell (its result is not \<open>-1\<close>), and on
  a board with the gravity invariant the top cell of column \<open>c\<close> is empty.
\<close>

theorem getBotMove_column_has_room:
  assumes wf: "wf_board b"
  shows "\<exists>c. getBotMove b = Some (c, b) \<and>
           (c = - 1 \<longrightarrow> list_all (\<lambda>k. cell b 0 k \<noteq> Some Empty) allCols) \<and>
           (c \<noteq> - 1 \<longrightarrow> 0 \<le> c \<and> c < COLS \<and>
              (\<exists>r. findRow b c = Some r \<and> r \<noteq> - 1 \<and> cell b r c = Some Empty) \<and>
              (gravity b \<longrightarrow> cell b 0 c = Some Empty))"
  using assms by (rule getBotMove_result)

theorem getBotMove_column_has_room_witness:
  "wf_board winBlockBoard \<and> gravity winBlockBoard \<and>
   getBotMove winBlockBoard = Some (6, winBlockBoard) \<and>
   (\<exists>r. findRow winBlockBoard 6 = Some r \<and> r \<noteq> - 1 \<and> cell winBlockBoard r 6 = Some Empty) \<and>
   cell winBlockBoard 0 6 = Some Empty \<and>
   wf_board fullBoard \<and> getBotMove fullBoard = Some (- 1, fullBoard) \<and>
   list_all (\<lambda>k. cell fullBoard 0 k \<noteq> Some Empty) allCols"
proof -
  have a: "map_option fst (getBotMove winBlockBoard) = Some 6" by code_simp
  have b: "map_option fst (getBotMove fullBoard) = Some (- 1)" by code_simp
  from getBotMove_column_has_room[OF wf_winBlockBoard] a gravity_winBlockBoard
  have 1: "getBotMove winBlockBoard = Some (6, winBlockBoard) \<and>
   (\<exists>r. findRow winBlockBoard 6 = Some r \<and> r \<noteq> - 1 \<and> cell winBlockBoard r 6 = Some Empty) \<and>
   cell winBlockBoard 0 6 = Some Empty" by auto
  from getBotMove_column_has_room[OF wf_fullBoard] b
  have 2: "getBotMove fullBoard = Some (- 1, fullBoard) \<and>
   list_all (\<lambda>k. cell fullBoard 0 k \<noteq> Some Empty) allCols" by auto
  show ?thesis
    using 1 2 wf_winBlockBoard wf_fullBoard gravity_winBlockBoard by simp
qed

section \<open>Properties of the game session\<close>

lemma rowHasEmpty_iff: "rowHasEmpty row \<longleftrightarrow> Empty \<in> set row"
  by (induction row) auto

lemma isBoardFull_iff: "isBoardFull b \<longleftrightarrow> boardFull b"
  by (induction b) (auto simp: boardFull_def rowHasEmpty_iff)

lemma sendTo_frame [simp]:
  "gameObjs (sendTo s p m) = gameObjs s"
  "players (sendTo s p m) = players s"
  "games (sendTo s p m) = games s"
  "playerGames (sendTo s p m) = playerGames s"
  "waitingPlayers (sendTo s p m) = waitingPlayers s"
  "timers (sendTo s p m) = timers s"
  "handlers (sendTo s p m) = handlers s"
  by (simp_all add: sendTo_def writeJSON_def split: option.split)

lemma game_sendTo [simp]: "game (sendTo s p m) g = game s g"
  by (simp add: game_def)

lemma player_sendTo [simp]: "player (sendTo s p m) q = player s q"
  by (simp add: player_def)

lemma setGame_frame [simp]:
  "players (setGame s g G) = players s"
  "games (setGame s g G) = games s"
  "playerGames (setGame s g G) = playerGames s"
  "waitingPlayers (setGame s g G) = waitingPlayers s"
  "timers (setGame s g G) = timers s"
  "handlers (setGame s g G) = handlers s"
  "sent (setGame s g G) = sent s"
  by (simp_all add: setGame_def)

lemma player_setGame [simp]: "player (setGame s g G) q = player s q"
  by (simp add: player_def)

lemma game_setGame [simp]: "g < length (gameObjs s) \<Longrightarrow> game (setGame s g G) g = G"
  by (simp add: game_def setGame_def)

lemma game_setGame_other [simp]: "g' \<noteq> g \<Longrightarrow> game (setGame s g G) g' = game s g'"
  by (simp add: game_def setGame_def)

lemma length_gameObjs_setGame [simp]: "length (gameObjs (setGame s g G)) = length (gameObjs s)"
  by (simp add: setGame_def)

lemma broadcast_frame [simp]:
  "gameObjs (broadcastMove s g) = gameObjs s"
  "players (broadcastMove s g) = players s"
  "timers (broadcastMove s g) = timers s"
  "gameObjs (broadcastGameOver s g) = gameObjs s"
  "players (broadcastGameOver s g) = players s"
  "timers (broadcastGameOver s g) = timers s"
  by (simp_all add: broadcastMove_def broadcastGameOver_def Let_def)

lemma game_broadcast [simp]:
  "game (broadcastMove s g) g' = game s g'"
  "game (broadcastGameOver s g) g' = game s g'"
  by (simp_all add: game_def)

lemma game_timers_update [simp]: "game (s\<lparr>timers := t\<rparr>) g = game s g"
  by (simp add: game_def)

lemma handleMove_finished:
  "Winner (game s g) \<noteq> [] \<Longrightarrow> handleMove s g p col = Some s"
  by (simp add: handleMove_def)

lemma makeBotMove_finished:
  "Winner (game s g) \<noteq> [] \<Longrightarrow> makeBotMove s g = Some s"
  by (simp add: makeBotMove_def)

lemma handleMove_wrong_turn:
  "Winner (game s g) = [] \<Longrightarrow> Color (player s p) \<noteq> CurrentPlayer (game s g) \<Longrightarrow>
   handleMove s g p col = Some (sendTo s p (Error ''Not your turn''))"
  by (simp add: handleMove_def)

lemma handleMove_bad_column:
  "Winner (game s g) = [] \<Longrightarrow> Color (player s p) = CurrentPlayer (game s g) \<Longrightarrow>
   col < 0 \<or> col \<ge> COLS \<Longrightarrow> handleMove s g p col = Some s"
  by (auto simp: handleMove_def)

lemma handleMove_full_column:
  assumes "Winner (game s g) = []" and "Color (player s p) = CurrentPlayer (game s g)"
    and "0 \<le> col" and "col < COLS" and "wf_board (Board (game s g))"
    and "\<not> hasRoom (Board (game s g)) col"
  shows "handleMove s g p col = Some (sendTo s p (Error ''Column is full''))"
proof -
  have "lowestEmpty (Board (game s g)) col = None"
    using assms(6) lowestEmpty_None by simp
  then show ?thesis
    using assms(1-4) by (simp add: handleMove_def place_eq[OF assms(5,3,4)])
qed

lemma handleMove_placed:
  assumes g: "g < length (gameObjs s)"
    and prog: "Winner (game s g) = []"
    and turn: "Color (player s p) = CurrentPlayer (game s g)"
    and side: "CurrentPlayer (game s g) = Red \<or> CurrentPlayer (game s g) = Yellow"
    and col: "0 \<le> col" "col < COLS"
    and wf: "wf_board (Board (game s g))"
    and low: "lowestEmpty (Board (game s g)) col = Some row"
    and b': "b' = (Board (game s g))[nat row := (Board (game s g) ! nat row)[nat col := Color (player s p)]]"
  shows "\<exists>s'. handleMove s g p col = Some s' \<and>
           Board (game s' g) = b' \<and>
           (if fourInLine b' row col
            then Winner (game s' g) = Color (player s p) \<and>
                 CurrentPlayer (game s' g) = CurrentPlayer (game s g)
            else if boardFull b'
            then Winner (game s' g) = ''draw'' \<and>
                 CurrentPlayer (game s' g) = CurrentPlayer (game s g)
            else Winner (game s' g) = [] \<and>
                 CurrentPlayer (game s' g) = (if CurrentPlayer (game s g) = Red then Yellow else Red))"
proof -
  have ig: "inGrid row col"
    using lowestEmpty_Some[OF low] col by (simp add: inGrid_def)
  have r: "row \<noteq> - 1" using ig by (auto simp: inGrid_def)
  have ne: "Color (player s p) \<noteq> Empty"
    using side turn Red_ne Yellow_ne by auto
  have wf': "wf_board b'" unfolding b' using wf ig by (rule wf_board_update)
  have "cell b' row col = Some (Color (player s p))"
    unfolding b' using wf ig by (rule cell_update_same)
  with ne have "cell b' row col \<noteq> Some Empty" by simp
  from checkWinner_wf[OF wf' ig this]
  have cw: "checkWinner b' row col = Some (fourInLine b' row col)" .
  have pl: "place (Board (game s g)) col (Color (player s p)) = Some (row, b')"
    by (simp add: place_eq[OF wf col] low b')
  have cp: "CurrentPlayer (game s g) = Color (player s p)" using turn by simp
  show ?thesis
    using prog col r g cp
    by (cases "fourInLine b' row col"; cases "boardFull b'")
       (simp_all add: handleMove_def pl cw isBoardFull_iff Let_def)
qed

subsection \<open>Rejoin\<close>

lemma setPlayer_frame [simp]:
  "gameObjs (setPlayer s p P) = gameObjs s"
  "games (setPlayer s p P) = games s"
  "playerGames (setPlayer s p P) = playerGames s"
  "waitingPlayers (setPlayer s p P) = waitingPlayers s"
  "timers (setPlayer s p P) = timers s"
  "handlers (setPlayer s p P) = handlers s"
  "sent (setPlayer s p P) = sent s"
  by (simp_all add: setPlayer_def)

lemma game_setPlayer [simp]: "game (setPlayer s p P) g = game s g"
  by (simp add: game_def)

lemma length_players_setPlayer [simp]: "length (players (setPlayer s p P)) = length (players s)"
  by (simp add: setPlayer_def)

lemma player_setPlayer:
  "p < length (players s) \<Longrightarrow> player (setPlayer s p P) q = (if q = p then P else player s q)"
  by (simp add: player_def setPlayer_def)

lemma sendGameState_frame [simp]:
  "gameObjs (sendGameState s g) = gameObjs s"
  "players (sendGameState s g) = players s"
  "games (sendGameState s g) = games s"
  "playerGames (sendGameState s g) = playerGames s"
  "waitingPlayers (sendGameState s g) = waitingPlayers s"
  "timers (sendGameState s g) = timers s"
  "handlers (sendGameState s g) = handlers s"
  by (simp_all add: sendGameState_def Let_def)

lemma player_sendGameState [simp]: "player (sendGameState s g) q = player s q"
  by (simp add: player_def)

lemma sent_sendTo:
  "sent (sendTo s p m) = sent s @ (case Conn (player s p) of None \<Rightarrow> [] | Some c \<Rightarrow> [(c, m)])"
  by (simp add: sendTo_def writeJSON_def split: option.split)

lemma sent_sendGameState: "sent (sendGameState s g) = sent s @ stateMsgs s g"
  by (simp add: sendGameState_def stateMsgs_def Let_def sent_sendTo split: option.split)

lemma reattach_frame:
  "gameObjs (reattach s seat p g) = gameObjs s"
  "games (reattach s seat p g) = games s"
  "playerGames (reattach s seat p g) = playerGames s"
  "waitingPlayers (reattach s seat p g) = waitingPlayers s"
  "timers (reattach s seat p g) = timers s"
  "handlers (reattach s seat p g) = handlers s"
  by (simp_all add: reattach_def Let_def)

lemma reattach_seat:
  assumes "seat < length (players s)" and "p < length (players s)"
  shows "Conn (player (reattach s seat p g) seat) = Conn (player s p)"
    and "\<not> Disconnected (player (reattach s seat p g) seat)"
    and "Username (player (reattach s seat p g) seat) = Username (player s seat)"
  using assms by (simp_all add: reattach_def Let_def player_setPlayer)

lemma reattach_sent:
  assumes "seat < length (players s)" and "p < length (players s)"
    and "seat = Player1 (game s g) \<or> seat = Player2 (game s g)"
    and "Conn (player s p) = Some c"
  shows "\<exists>ms. sent (reattach s seat p g) = sent s @ ms \<and>
           (c, MoveMsg (Board (game s g)) (CurrentPlayer (game s g))) \<in> set ms"
  using assms
  by (auto simp: reattach_def Let_def sent_sendGameState stateMsgs_def player_setPlayer)

lemma rejoinLoop_find:
  "rejoinLoop s p visit =
     (case find (rejoinable s p) visit of
        None \<Rightarrow> None
      | Some g \<Rightarrow> Some (reattach s (awaySeat s p g) p g, g))"
  by (induction visit) (auto simp: rejoinable_def awaySeat_def seatAway_def Let_def)

lemma matchPlayer_rejoin:
  assumes "find (rejoinable s p) visit = Some g"
  shows "matchPlayer s p gameID visit = Some (reattach s (awaySeat s p g) p g, Some g)"
  by (simp add: matchPlayer_def rejoinLoop_find assms)

text \<open>
  Claim C7. Let the joining participant \<open>p\<close> (a \<^verbatim>\<open>Player\<close> with a connection \<open>c\<close>) have
  its name on a disconnected seat of a session \<open>g\<close> without result among the visited
  games. Then \<open>matchPlayer\<close> returns such a session \<open>g'\<close> (it is \<open>g\<close> when \<open>g\<close> is the
  only one), whatever the waiting list holds: the seat keeps its name, its connection
  becomes \<open>c\<close>, its disconnected flag is cleared, the board and turn of \<open>g'\<close> are sent
  to \<open>c\<close>, and no game object (board, turn marker, result), no map and not the waiting
  list is changed.
\<close>

theorem join_reattaches:
  assumes g: "g \<in> set visit" and rj: "rejoinable s p g"
    and p: "p < length (players s)" and c: "Conn (player s p) = Some c"
    and seats: "\<forall>h \<in> set visit. Player1 (game s h) < length (players s) \<and>
                                 Player2 (game s h) < length (players s)"
  shows "\<exists>s' g' seat. matchPlayer s p gameID visit = Some (s', Some g') \<and>
           g' \<in> set visit \<and> rejoinable s p g' \<and>
           ((\<forall>h \<in> set visit. rejoinable s p h \<longrightarrow> h = g) \<longrightarrow> g' = g) \<and>
           (seat = Player1 (game s g') \<or> seat = Player2 (game s g')) \<and>
           Username (player s seat) = Username (player s p) \<and> Disconnected (player s seat) \<and>
           Username (player s' seat) = Username (player s p) \<and>
           Conn (player s' seat) = Some c \<and> \<not> Disconnected (player s' seat) \<and>
           (\<exists>ms. sent s' = sent s @ ms \<and>
                 (c, MoveMsg (Board (game s g')) (CurrentPlayer (game s g'))) \<in> set ms) \<and>
           gameObjs s' = gameObjs s \<and> games s' = games s \<and>
           playerGames s' = playerGames s \<and> waitingPlayers s' = waitingPlayers s"
proof -
  from g rj obtain g' where f: "find (rejoinable s p) visit = Some g'"
    by (cases "find (rejoinable s p) visit") (auto simp: find_None_iff)
  then have g': "g' \<in> set visit" "rejoinable s p g'"
    by (auto simp: find_Some_iff)
  let ?seat = "awaySeat s p g'"
  have sa: "seatAway s p ?seat"
    using g'(2) by (auto simp: rejoinable_def awaySeat_def)
  have sv: "?seat < length (players s)"
    using seats g'(1) by (auto simp: awaySeat_def)
  have so: "?seat = Player1 (game s g') \<or> ?seat = Player2 (game s g')"
    by (simp add: awaySeat_def)
  show ?thesis
    using matchPlayer_rejoin[OF f, of gameID] g' sa so c
      reattach_seat[OF sv p, of g'] reattach_sent[OF sv p so c] reattach_frame[of s ?seat p g']
    by (intro exI[of _ "reattach s ?seat p g'"] exI[of _ g'] exI[of _ ?seat])
       (simp add: seatAway_def)
qed

theorem join_reattaches_witness:
  "rejoinable awayGame 2 0 \<and>
   (\<exists>s'. matchPlayer awayGame 2 ''game0002'' [0] = Some (s', Some 0) \<and>
      Conn (player s' 0) = Some 2 \<and> \<not> Disconnected (player s' 0) \<and>
      gameObjs s' = gameObjs awayGame \<and> waitingPlayers s' = waitingPlayers awayGame \<and>
      (2, MoveMsg midBoard Red) \<in> set (sent s'))"
proof -
  have a: "(0::nat) \<in> set [0]" by simp
  have r: "rejoinable awayGame 2 0" by code_simp
  have p: "(2::nat) < length (players awayGame)" by code_simp
  have c: "Conn (player awayGame 2) = Some 2" by code_simp
  have v: "\<forall>h \<in> set [0::nat]. Player1 (game awayGame h) < length (players awayGame) \<and>
                                 Player2 (game awayGame h) < length (players awayGame)"
    by code_simp
  have e: "Player1 (game awayGame 0) = 0" "Player2 (game awayGame 0) = 1"
    "\<not> Disconnected (player awayGame 1)" "Board (game awayGame 0) = midBoard"
    "CurrentPlayer (game awayGame 0) = Red" "sent awayGame = []"
    by code_simp+
  from join_reattaches[OF a r p c v, of "''game0002''"] e
  have "\<exists>s'. matchPlayer awayGame 2 ''game0002'' [0] = Some (s', Some 0) \<and>
      Conn (player s' 0) = Some 2 \<and> \<not> Disconnected (player s' 0) \<and>
      gameObjs s' = gameObjs awayGame \<and> waitingPlayers s' = waitingPlayers awayGame \<and>
      (2, MoveMsg midBoard Red) \<in> set (sent s')"
    by auto
  with r show ?thesis by blast
qed

subsection \<open>The waiting queue\<close>

lemma waiting_broadcast [simp]:
  "waitingPlayers (broadcastMove s g) = waitingPlayers s"
  "waitingPlayers (broadcastGameOver s g) = waitingPlayers s"
  by (simp_all add: broadcastMove_def broadcastGameOver_def Let_def)

lemma waiting_handleMove:
  "handleMove s g p col = Some s' \<Longrightarrow> waitingPlayers s' = waitingPlayers s"
  by (auto simp: handleMove_def Let_def split: if_splits option.splits prod.splits bool.splits)

lemma waiting_makeBotMove:
  "makeBotMove s g = Some s' \<Longrightarrow> waitingPlayers s' = waitingPlayers s"
  by (auto simp: makeBotMove_def Let_def split: if_splits option.splits prod.splits bool.splits)

lemma waiting_handleDisconnect [simp]:
  "waitingPlayers (handleDisconnect s p g) = waitingPlayers s"
  by (simp add: handleDisconnect_def Let_def)

lemma waiting_graceTimer [simp]:
  "waitingPlayers (graceTimer s p g) = waitingPlayers s"
  by (simp add: graceTimer_def Let_def)

lemma waiting_createGame [simp]:
  "waitingPlayers (fst (createGame s p1 p2 isBot gameID)) = waitingPlayers s"
  by (simp add: createGame_def Let_def)

lemma waiting_setHandler [simp]: "waitingPlayers (setHandler s c h) = waitingPlayers s"
  by (simp add: setHandler_def)

lemma waiting_fallbackTimer:
  "length (waitingPlayers (fallbackTimer s p gameID)) \<le> length (waitingPlayers s)"
  by (simp add: fallbackTimer_def Let_def length_remove1)

lemma waiting_matchPlayer:
  assumes "matchPlayer s p gameID visit = Some (s', res)" and "length (waitingPlayers s) \<le> 1"
  shows "length (waitingPlayers s') \<le> 1"
proof (cases "find (rejoinable s p) visit")
  case (Some g)
  with assms show ?thesis
    by (auto simp: matchPlayer_rejoin reattach_frame)
next
  case None
  then have r: "rejoinLoop s p visit = None" by (simp add: rejoinLoop_find)
  show ?thesis
  proof (cases "waitingPlayers s")
    case Nil
    with assms r show ?thesis
      by (auto simp: matchPlayer_def writeJSON_def Let_def split: option.splits)
  next
    case (Cons q rest)
    with assms(2) have "rest = []" by simp
    have "waitingPlayers (fst (createGame (s\<lparr>waitingPlayers := rest\<rparr>) q p False gameID)) = rest"
      by simp
    moreover have "s' = fst (createGame (s\<lparr>waitingPlayers := rest\<rparr>) q p False gameID)"
      using assms(1) r Cons by (auto simp: matchPlayer_def split: prod.splits)
    ultimately show ?thesis using \<open>rest = []\<close> by simp
  qed
qed

lemma waiting_wsJoin:
  assumes "wsJoin s c u gameID visit = Some s'" and "length (waitingPlayers s) \<le> 1"
  shows "length (waitingPlayers s') \<le> 1"
proof -
  have "length (waitingPlayers (allocPlayer s c u)) \<le> 1"
    using assms(2) by (simp add: allocPlayer_def)
  with assms(1) show ?thesis
    by (auto simp: wsJoin_def Let_def split: option.splits dest: waiting_matchPlayer)
qed

lemma waiting_wsMove:
  "wsMove s c col = Some s' \<Longrightarrow> waitingPlayers s' = waitingPlayers s"
  by (auto simp: wsMove_def Let_def writeJSON_def split: option.splits dest!: waiting_handleMove)

lemma waiting_wsReadError [simp]:
  "waitingPlayers (wsReadError s c) = waitingPlayers s"
  by (simp add: wsReadError_def Let_def split: option.split prod.split)

lemma waiting_fire:
  assumes "fire s t gameID = Some s'"
  shows "length (waitingPlayers s') \<le> length (waitingPlayers s)"
  using assms waiting_fallbackTimer[of s _ gameID]
  by (cases t) (auto simp: fire_def dest: waiting_makeBotMove)

lemma waiting_step:
  assumes "step e s = Some s'" and "length (waitingPlayers s) \<le> 1"
  shows "length (waitingPlayers s') \<le> 1"
proof (cases e)
  case Connect
  with assms show ?thesis by auto
next
  case (RecvJoin c u gameID order)
  with assms show ?thesis
    by (auto split: if_splits dest: waiting_wsJoin)
next
  case (RecvMove c col)
  with assms show ?thesis
    by (auto split: if_splits dest: waiting_wsMove)
next
  case (ReadError c)
  with assms show ?thesis
    by (auto split: if_splits)
next
  case (Fire i gameID)
  show ?thesis
  proof (cases "i < length (timers s)")
    case True
    with assms(1) Fire
    have "fire (s\<lparr>timers := take i (timers s) @ drop (Suc i) (timers s)\<rparr>) (timers s ! i) gameID = Some s'"
      by simp
    from waiting_fire[OF this] assms(2) show ?thesis by simp
  next
    case False
    with assms Fire show ?thesis by simp
  qed
qed

lemma reachable_waiting: "reachable s \<Longrightarrow> length (waitingPlayers s) \<le> 1"
  by (induction rule: reachable.induct) (auto simp: initServer_def dest: waiting_step)

lemma run_reachable_from: "reachable s \<Longrightarrow> run es s = Some s' \<Longrightarrow> reachable s'"
proof (induction es arbitrary: s)
  case Nil
  then show ?case by simp
next
  case (Cons e es)
  then show ?case
    by (auto split: option.splits intro: reachable_step)
qed

lemma run_reachable: "run es initServer = Some s \<Longrightarrow> reachable s"
  using reachable_init by (rule run_reachable_from)

subsection \<open>Finished games\<close>

text \<open>No step of the server changes a game object whose result is set.\<close>

lemma game_frame_misc [simp]:
  "game (s\<lparr>players := ps\<rparr>) g = game s g"
  "game (s\<lparr>waitingPlayers := wp\<rparr>) g = game s g"
  "game (s\<lparr>playerGames := pg\<rparr>) g = game s g"
  "game (s\<lparr>sent := ms\<rparr>) g = game s g"
  "game (s\<lparr>handlers := hs\<rparr>) g = game s g"
  "game (setHandler s c h) g = game s g"
  "game (writeJSON s c m) g = game s g"
  by (simp_all add: game_def setHandler_def writeJSON_def)

lemma game_setGame_cases:
  "game (setGame s g' G) g = (if g = g' \<and> g' < length (gameObjs s) then G else game s g)"
proof (cases "g' < length (gameObjs s)")
  case True
  then show ?thesis by (auto simp: game_def setGame_def nth_list_update)
next
  case False
  then show ?thesis by (simp add: game_def setGame_def list_update_beyond)
qed

lemma handleMove_finished_frame:
  assumes "handleMove s g' p col = Some s'" and "Winner (game s g) \<noteq> []"
  shows "game s' g = game s g"
proof (cases "g' = g")
  case True
  with assms show ?thesis by (simp add: handleMove_finished)
next
  case False
  with assms(1) show ?thesis
    by (auto simp: handleMove_def Let_def game_setGame_cases
             split: if_splits option.splits prod.splits bool.splits)
qed

lemma makeBotMove_finished_frame:
  assumes "makeBotMove s g' = Some s'" and "Winner (game s g) \<noteq> []"
  shows "game s' g = game s g"
proof (cases "g' = g")
  case True
  with assms show ?thesis by (simp add: makeBotMove_finished)
next
  case False
  with assms(1) show ?thesis
    by (auto simp: makeBotMove_def Let_def game_setGame_cases
             split: if_splits option.splits prod.splits bool.splits)
qed

lemma graceTimer_finished_frame:
  "Winner (game s g) \<noteq> [] \<Longrightarrow> game (graceTimer s p g') g = game s g"
  by (auto simp: graceTimer_def Let_def game_setGame_cases)

lemma handleDisconnect_game [simp]: "game (handleDisconnect s p g') g = game s g"
  by (simp add: handleDisconnect_def Let_def)

lemma createGame_game:
  "g < length (gameObjs s) \<Longrightarrow> game (fst (createGame s p1 p2 isBot gameID)) g = game s g"
  by (simp add: createGame_def Let_def game_def nth_append)

lemma reattach_game [simp]: "game (reattach s seat p g') g = game s g"
  by (simp add: game_def reattach_frame)

lemma matchPlayer_game:
  assumes "matchPlayer s p gameID visit = Some (s', res)" and "g < length (gameObjs s)"
  shows "game s' g = game s g"
proof (cases "find (rejoinable s p) visit")
  case (Some g')
  with assms show ?thesis by (auto simp: matchPlayer_rejoin)
next
  case None
  then have r: "rejoinLoop s p visit = None" by (simp add: rejoinLoop_find)
  show ?thesis
  proof (cases "waitingPlayers s")
    case Nil
    with assms r show ?thesis
      by (auto simp: matchPlayer_def Let_def split: option.splits)
  next
    case (Cons q rest)
    have "game (fst (createGame (s\<lparr>waitingPlayers := rest\<rparr>) q p False gameID)) g = game s g"
      using assms(2) by (simp add: createGame_game)
    moreover have "s' = fst (createGame (s\<lparr>waitingPlayers := rest\<rparr>) q p False gameID)"
      using assms(1) r Cons by (auto simp: matchPlayer_def split: prod.splits)
    ultimately show ?thesis by simp
  qed
qed

lemma wsJoin_game:
  assumes "wsJoin s c u gameID visit = Some s'" and "g < length (gameObjs s)"
  shows "game s' g = game s g"
proof -
  have "g < length (gameObjs (allocPlayer s c u))" "game (allocPlayer s c u) g = game s g"
    using assms(2) by (simp_all add: allocPlayer_def)
  with assms(1) show ?thesis
    by (auto simp: wsJoin_def Let_def split: option.splits dest!: matchPlayer_game)
qed

lemma wsMove_game:
  assumes "wsMove s c col = Some s'" and "Winner (game s g) \<noteq> []"
  shows "game s' g = game s g"
  using assms
  by (auto simp: wsMove_def Let_def split: option.splits dest!: handleMove_finished_frame[where g = g])

lemma wsReadError_game [simp]: "game (wsReadError s c) g = game s g"
  by (simp add: wsReadError_def Let_def split: option.split)

lemma fallbackTimer_game:
  "g < length (gameObjs s) \<Longrightarrow> game (fallbackTimer s p gameID) g = game s g"
  by (simp add: fallbackTimer_def Let_def createGame_game)

lemma step_finished_frame:
  assumes "step e s = Some s'" and "g < length (gameObjs s)" and "Winner (game s g) \<noteq> []"
  shows "game s' g = game s g"
proof (cases e)
  case Connect
  with assms show ?thesis by auto
next
  case (RecvJoin c u gameID order)
  with assms show ?thesis by (auto split: if_splits dest: wsJoin_game)
next
  case (RecvMove c col)
  with assms show ?thesis by (auto split: if_splits dest: wsMove_game)
next
  case (ReadError c)
  with assms show ?thesis by (auto split: if_splits)
next
  case (Fire i gameID)
  show ?thesis
  proof (cases "i < length (timers s)")
    case False
    with assms Fire show ?thesis by simp
  next
    case True
    let ?s1 = "s\<lparr>timers := take i (timers s) @ drop (Suc i) (timers s)\<rparr>"
    have f: "fire ?s1 (timers s ! i) gameID = Some s'" using assms(1) Fire True by simp
    have g1: "game ?s1 g = game s g" "g < length (gameObjs ?s1)" using assms(2) by simp_all
    show ?thesis
    proof (cases "timers s ! i")
      case (FallbackTimer p)
      with f g1 show ?thesis by (auto simp: fire_def fallbackTimer_game)
    next
      case (BotThink g')
      with f have "makeBotMove ?s1 g' = Some s'" by (simp add: fire_def)
      from makeBotMove_finished_frame[OF this, of g] assms(3) g1 show ?thesis by simp
    next
      case (GraceTimer p g')
      with f assms(3) g1 show ?thesis by (auto simp: fire_def graceTimer_finished_frame)
    qed
  qed
qed

subsection \<open>Accepted moves\<close>

text \<open>
  Claim C4. In a game in progress, for a player who holds the turn (the turn marker is
  one of the two sides) and a column index in range with an empty cell, \<open>handleMove\<close>
  returns (no panic) with the disc on the lowest empty cell of the column. If that cell
  now lies on a line of four, the result is the acting player's color; else if no empty
  cell remains, the result is \<open>draw\<close>; else the result stays unset and the turn marker is
  the other side. In every state in which the result of the game is set, \<open>handleMove\<close>
  (and the bot's \<open>makeBotMove\<close>) returns the state unchanged, and no step of the server
  changes the game object (board, turn marker, result) any more.
\<close>

theorem handleMove_accepted_move:
  assumes g: "g < length (gameObjs s)"
    and prog: "Winner (game s g) = []"
    and turn: "Color (player s p) = CurrentPlayer (game s g)"
    and side: "CurrentPlayer (game s g) = Red \<or> CurrentPlayer (game s g) = Yellow"
    and col: "0 \<le> col" "col < COLS"
    and wf: "wf_board (Board (game s g))"
    and room: "hasRoom (Board (game s g)) col"
  shows "\<exists>s' row. handleMove s g p col = Some s' \<and>
           lowestEmpty (Board (game s g)) col = Some row \<and>
           Board (game s' g) =
             (Board (game s g))[nat row := (Board (game s g) ! nat row)[nat col := Color (player s p)]] \<and>
           (fourInLine (Board (game s' g)) row col \<longrightarrow>
              Winner (game s' g) = Color (player s p) \<and> Winner (game s' g) \<noteq> []) \<and>
           (\<not> fourInLine (Board (game s' g)) row col \<and> boardFull (Board (game s' g)) \<longrightarrow>
              Winner (game s' g) = ''draw'') \<and>
           (\<not> fourInLine (Board (game s' g)) row col \<and> \<not> boardFull (Board (game s' g)) \<longrightarrow>
              Winner (game s' g) = [] \<and>
              CurrentPlayer (game s' g) \<noteq> CurrentPlayer (game s g) \<and>
              (CurrentPlayer (game s' g) = Red \<or> CurrentPlayer (game s' g) = Yellow)) \<and>
           (\<forall>t p' col'. Winner (game t g) \<noteq> [] \<longrightarrow>
              handleMove t g p' col' = Some t \<and> makeBotMove t g = Some t) \<and>
           (\<forall>e t t'. step e t = Some t' \<and> g < length (gameObjs t) \<and> Winner (game t g) \<noteq> [] \<longrightarrow>
              game t' g = game t g)"
proof -
  from room obtain row where low: "lowestEmpty (Board (game s g)) col = Some row"
    using lowestEmpty_None[of "Board (game s g)" col] by auto
  define b' where "b' = (Board (game s g))[nat row := (Board (game s g) ! nat row)[nat col := Color (player s p)]]"
  from handleMove_placed[OF g prog turn side col wf low b'_def] obtain s' where
    s': "handleMove s g p col = Some s'" "Board (game s' g) = b'"
     "if fourInLine b' row col
            then Winner (game s' g) = Color (player s p) \<and>
                 CurrentPlayer (game s' g) = CurrentPlayer (game s g)
            else if boardFull b'
            then Winner (game s' g) = ''draw'' \<and>
                 CurrentPlayer (game s' g) = CurrentPlayer (game s g)
            else Winner (game s' g) = [] \<and>
                 CurrentPlayer (game s' g) = (if CurrentPlayer (game s g) = Red then Yellow else Red)"
    by blast
  have ne: "Color (player s p) \<noteq> []"
    using side turn by (auto simp: Red_def Yellow_def)
  have ry: "Red \<noteq> Yellow" by (simp add: Red_def Yellow_def)
  have fin: "\<forall>t p' col'. Winner (game t g) \<noteq> [] \<longrightarrow>
              handleMove t g p' col' = Some t \<and> makeBotMove t g = Some t"
    by (simp add: handleMove_finished makeBotMove_finished)
  have bd: "Board (game s' g) =
      (Board (game s g))[nat row := (Board (game s g) ! nat row)[nat col := Color (player s p)]]"
    using s'(2) b'_def by simp
  have c3: "if fourInLine (Board (game s' g)) row col
            then Winner (game s' g) = Color (player s p)
            else if boardFull (Board (game s' g))
            then Winner (game s' g) = ''draw''
            else Winner (game s' g) = [] \<and>
                 CurrentPlayer (game s' g) = (if CurrentPlayer (game s g) = Red then Yellow else Red)"
    using s'(3) s'(2) by (simp split: if_splits)
  have "(fourInLine (Board (game s' g)) row col \<longrightarrow>
              Winner (game s' g) = Color (player s p) \<and> Winner (game s' g) \<noteq> []) \<and>
           (\<not> fourInLine (Board (game s' g)) row col \<and> boardFull (Board (game s' g)) \<longrightarrow>
              Winner (game s' g) = ''draw'') \<and>
           (\<not> fourInLine (Board (game s' g)) row col \<and> \<not> boardFull (Board (game s' g)) \<longrightarrow>
              Winner (game s' g) = [] \<and>
              CurrentPlayer (game s' g) \<noteq> CurrentPlayer (game s g) \<and>
              (CurrentPlayer (game s' g) = Red \<or> CurrentPlayer (game s' g) = Yellow))"
    using c3 ne ry side by (auto split: if_splits)
  moreover have "\<forall>e t t'. step e t = Some t' \<and> g < length (gameObjs t) \<and> Winner (game t g) \<noteq> [] \<longrightarrow>
              game t' g = game t g"
    using step_finished_frame by blast
  ultimately show ?thesis
    using s'(1) low bd fin by blast
qed

lemma midGame_facts:
  "(0::nat) < length (gameObjs midGame)" "Winner (game midGame 0) = []"
  "Color (player midGame 0) = CurrentPlayer (game midGame 0)"
  "CurrentPlayer (game midGame 0) = Red \<or> CurrentPlayer (game midGame 0) = Yellow"
  "wf_board (Board (game midGame 0))"
  by (simp_all add: midGame_def twoSeats_def game_def player_def seatX_def wf_board_def
      midBoard_def emptyRow_def ROWS_def COLS_def)

lemma lastMoveGame_facts:
  "(0::nat) < length (gameObjs lastMoveGame)" "Winner (game lastMoveGame 0) = []"
  "Color (player lastMoveGame 1) = CurrentPlayer (game lastMoveGame 0)"
  "CurrentPlayer (game lastMoveGame 0) = Red \<or> CurrentPlayer (game lastMoveGame 0) = Yellow"
  "wf_board (Board (game lastMoveGame 0))"
  by (simp_all add: lastMoveGame_def twoSeats_def game_def player_def seatY_def wf_board_def
      lastMoveBoard_def ROWS_def COLS_def)

theorem handleMove_accepted_move_witness:
  "(\<exists>s'. handleMove midGame 0 0 3 = Some s' \<and> Winner (game s' 0) = ''red'' \<and>
         handleMove s' 0 1 4 = Some s') \<and>
   (\<exists>s'. handleMove midGame 0 0 0 = Some s' \<and> Winner (game s' 0) = [] \<and>
         CurrentPlayer (game s' 0) = Yellow) \<and>
   (\<exists>s'. handleMove lastMoveGame 0 1 0 = Some s' \<and> Winner (game s' 0) = ''draw'')"
proof -
  have c: "(0::int) \<le> 3" "3 < COLS" "(0::int) \<le> 0" "0 < COLS" by (simp_all add: COLS_def)
  have r3: "hasRoom (Board (game midGame 0)) 3" by code_simp
  have r0: "hasRoom (Board (game midGame 0)) 0" by code_simp
  have rl: "hasRoom (Board (game lastMoveGame 0)) 0" by code_simp
  have l3: "lowestEmpty (Board (game midGame 0)) 3 = Some 5" by code_simp
  have l0: "lowestEmpty (Board (game midGame 0)) 0 = Some 4" by code_simp
  have ll: "lowestEmpty (Board (game lastMoveGame 0)) 0 = Some 0" by code_simp
  have f3: "fourInLine ((Board (game midGame 0))[nat 5 := (Board (game midGame 0) ! nat 5)[nat 3 := Color (player midGame 0)]]) 5 3"
    by code_simp
  have f0: "\<not> fourInLine ((Board (game midGame 0))[nat 4 := (Board (game midGame 0) ! nat 4)[nat 0 := Color (player midGame 0)]]) 4 0"
    "\<not> boardFull ((Board (game midGame 0))[nat 4 := (Board (game midGame 0) ! nat 4)[nat 0 := Color (player midGame 0)]])"
    by code_simp+
  have fl: "\<not> fourInLine ((Board (game lastMoveGame 0))[nat 0 := (Board (game lastMoveGame 0) ! nat 0)[nat 0 := Color (player lastMoveGame 1)]]) 0 0"
    "boardFull ((Board (game lastMoveGame 0))[nat 0 := (Board (game lastMoveGame 0) ! nat 0)[nat 0 := Color (player lastMoveGame 1)]])"
    by code_simp+
  have cx: "Color (player midGame 0) = ''red''" by code_simp
  have cur: "CurrentPlayer (game midGame 0) = Red" by code_simp
  have 1: "\<exists>s'. handleMove midGame 0 0 3 = Some s' \<and> Winner (game s' 0) = ''red'' \<and>
         handleMove s' 0 1 4 = Some s'"
    using handleMove_accepted_move[OF midGame_facts(1-4) c(1,2) midGame_facts(5) r3] l3 f3 cx
    by (metis option.inject)
  have 2: "\<exists>s'. handleMove midGame 0 0 0 = Some s' \<and> Winner (game s' 0) = [] \<and>
         CurrentPlayer (game s' 0) = Yellow"
    using handleMove_accepted_move[OF midGame_facts(1-4) c(3,4) midGame_facts(5) r0] l0 f0 cur
    by (metis option.inject)
  have 3: "\<exists>s'. handleMove lastMoveGame 0 1 0 = Some s' \<and> Winner (game s' 0) = ''draw''"
    using handleMove_accepted_move[OF lastMoveGame_facts(1-4) c(3,4) lastMoveGame_facts(5) rl] ll fl
    by (metis option.inject)
  show ?thesis using 1 2 3 by blast
qed

subsection \<open>Rejected moves\<close>

text \<open>
  Claim C5 asks that a move rejected for a wrong turn, a column out of range or a full
  column leaves the session unchanged and is reported to the client. The state is
  unchanged on all three paths (\<open>handleMove_wrong_turn\<close>, \<open>handleMove_bad_column\<close>,
  \<open>handleMove_full_column\<close>), but the path for a column out of range writes no message:
  after \<open>joinedRun\<close>, where red (X, connection 0) holds the turn, a move message of X
  for column 7 or -1 leaves the game objects and the list of written messages as they
  are, while a move of yellow out of turn is answered with an error on its connection.
\<close>

theorem handleMove_invalid_column_not_reported:
  "map_option (\<lambda>s. (gameObjs s, sent s)) (run (joinedRun @ [RecvMove 0 7]) initServer) =
     map_option (\<lambda>s. (gameObjs s, sent s)) (run joinedRun initServer) \<and>
   map_option (\<lambda>s. (gameObjs s, sent s)) (run (joinedRun @ [RecvMove 0 (- 1)]) initServer) =
     map_option (\<lambda>s. (gameObjs s, sent s)) (run joinedRun initServer) \<and>
   map_option (\<lambda>s. length (sent s)) (run joinedRun initServer) = Some 3 \<and>
   map_option (\<lambda>s. drop 3 (sent s)) (run (joinedRun @ [RecvMove 1 3]) initServer) =
     Some [(1, Error ''Not your turn'')]"
  by code_simp

lemma handleMove_full_column_reported:
  "handleMove fullColGame 0 1 0 = Some (fullColGame\<lparr>sent := [(1, Error ''Column is full'')]\<rparr>)"
  by code_simp

subsection \<open>Forfeiture\<close>

text \<open>
  Claim C6 asks that the grace timer, when it fires for a participant who is still away
  in a game in progress, gives the win to the other seat, and that it does nothing once
  the seat has reconnected. In \<open>forfeitRun\<close> X (seat 1, red) and Y (seat 2, yellow) are
  paired, X moves, X's connection fails, X joins again on a new connection and is
  reattached, that connection fails too, and the three sleeping goroutines wake up. The
  handler of the second connection holds its own \<^verbatim>\<open>Player\<close> object, which is not a seat of
  the game: \<open>handleDisconnect\<close> marks that object, \<open>getOpponent\<close> compares pointers and
  returns seat 1, and the timer sets the result to red, the side of the participant who
  left, while the seat's own flag is clear.
\<close>

theorem forfeit_after_rejoin_awards_leaver:
  "map_option (\<lambda>s. (Username (player s (Player1 (game s 0))), Color (player s (Player1 (game s 0))),
                    Disconnected (player s (Player1 (game s 0))),
                    map hopen (handlers s), timers s, Winner (game s 0)))
     (run forfeitRun initServer) =
   Some (''X'', ''red'', False, [False, True, False], [], ''red'')"
  by code_simp

text \<open>
  When the participant's object is a seat of the game, the timer does what the claim
  says: the other seat's color becomes the result, and a timer that finds the flag
  cleared or the result set changes nothing.
\<close>

lemma graceTimer_seat:
  assumes "g < length (gameObjs s)"
    and "Disconnected (player s p)" and "Winner (game s g) = []"
    and "Player1 (game s g) \<noteq> Player2 (game s g)"
  shows "p = Player1 (game s g) \<Longrightarrow>
           Winner (game (graceTimer s p g) g) = Color (player s (Player2 (game s g)))"
    and "p = Player2 (game s g) \<Longrightarrow>
           Winner (game (graceTimer s p g) g) = Color (player s (Player1 (game s g)))"
  using assms by (simp_all add: graceTimer_def getOpponent_def Let_def)

lemma graceTimer_noop:
  "\<not> Disconnected (player s p) \<or> Winner (game s g) \<noteq> [] \<Longrightarrow> graceTimer s p g = s"
  by (auto simp: graceTimer_def)

lemma Username_setPlayer:
  assumes "Username P = Username (player s q)"
  shows "Username (player (setPlayer s q P) r) = Username (player s r)"
proof (cases "q < length (players s)")
  case True
  with assms show ?thesis by (simp add: player_def setPlayer_def nth_list_update)
next
  case False
  then show ?thesis by (simp add: player_def setPlayer_def list_update_beyond)
qed

lemma player_frame_misc [simp]:
  "player (s\<lparr>gameObjs := go, games := gm\<rparr>) r = player s r"
  "player (s\<lparr>playerGames := pg\<rparr>) r = player s r"
  "player (s\<lparr>waitingPlayers := wp\<rparr>) r = player s r"
  by (simp_all add: player_def)

lemma join_pairs_head:
  assumes "connOpen s c" and "sort order = [0..<length (games s)]"
    and "waitingPlayers s = q # rest"
    and "rejoinLoop (allocPlayer s c u) (length (players s)) (map (\<lambda>i. snd (games s ! i)) order) = None"
  shows "\<exists>s' g. step (RecvJoin c u gameID order) s = Some s' \<and> waitingPlayers s' = rest \<and>
           hplayer (handlers s' ! c) = Some (length (players s)) \<and>
           hgame (handlers s' ! c) = Some g \<and>
           Player1 (game s' g) = q \<and> Player2 (game s' g) = length (players s) \<and>
           Username (player s' (length (players s))) = u"
proof -
  let ?s1 = "allocPlayer s c u"
  let ?p = "length (players s)"
  let ?cg = "createGame (?s1\<lparr>waitingPlayers := rest\<rparr>) q ?p False gameID"
  have w: "waitingPlayers ?s1 = q # rest" using assms(3) by (simp add: allocPlayer_def)
  have m: "matchPlayer ?s1 ?p gameID (map (\<lambda>i. snd (games s ! i)) order) = Some (fst ?cg, Some (snd ?cg))"
    by (simp add: matchPlayer_def assms(4) w split: prod.split)
  have c: "c < length (handlers (fst ?cg))"
    using assms(1) by (simp add: connOpen_def createGame_def Let_def allocPlayer_def)
  have st: "step (RecvJoin c u gameID order) s =
      Some (setHandler (fst ?cg) c ((handlers (fst ?cg) ! c)\<lparr>hplayer := Some ?p, hgame := Some (snd ?cg)\<rparr>))"
    using assms(1,2) by (simp add: wsJoin_def Let_def m)
  have g: "game (fst ?cg) (snd ?cg) =
      \<lparr>ID = gameID, Board = newBoard, Player1 = q, Player2 = ?p,
       CurrentPlayer = Red, Winner = [], IsBot = False\<rparr>"
    by (simp add: createGame_def Let_def game_def)
  have "Username (player ?s1 ?p) = u"
    by (simp add: player_def allocPlayer_def)
  then have u: "Username (player (fst ?cg) ?p) = u"
    by (simp add: createGame_def Let_def Username_setPlayer)
  let ?h = "(handlers (fst ?cg) ! c)\<lparr>hplayer := Some ?p, hgame := Some (snd ?cg)\<rparr>"
  let ?s' = "setHandler (fst ?cg) c ?h"
  have 1: "waitingPlayers ?s' = rest" by simp
  have 2: "handlers ?s' ! c = ?h" using c by (simp add: setHandler_def)
  have 3: "game ?s' (snd ?cg) = game (fst ?cg) (snd ?cg)"
    by (simp add: game_def setHandler_def)
  have 4: "player ?s' ?p = player (fst ?cg) ?p"
    by (simp add: player_def setHandler_def)
  show ?thesis
    by (intro exI[of _ ?s'] exI[of _ "snd ?cg"]) (simp add: st 1 2 3 4 g u del: step.simps)
qed

text \<open>
  Claim C9. In every reachable state of the server the waiting list holds no name twice
  (it never holds more than one participant: a join on a non-empty list takes its head
  or reattaches), and a join that finds no seat to rejoin while the list is non-empty
  takes the head \<open>q\<close> of the list: the list becomes its tail and the new game has \<open>q\<close>
  on seat 1 and the joining participant, also one of the same name, on seat 2.
\<close>

theorem waiting_queue_fifo:
  assumes "reachable s"
  shows "distinct (map (\<lambda>p. Username (player s p)) (waitingPlayers s)) \<and>
         length (waitingPlayers s) \<le> 1 \<and>
         (\<forall>c u gameID order q rest.
            connOpen s c \<and> sort order = [0..<length (games s)] \<and>
            waitingPlayers s = q # rest \<and>
            rejoinLoop (allocPlayer s c u) (length (players s))
              (map (\<lambda>i. snd (games s ! i)) order) = None \<longrightarrow>
            (\<exists>s' g. step (RecvJoin c u gameID order) s = Some s' \<and> waitingPlayers s' = rest \<and>
               hgame (handlers s' ! c) = Some g \<and>
               Player1 (game s' g) = q \<and> Player2 (game s' g) = length (players s) \<and>
               Username (player s' (length (players s))) = u))"
proof -
  have l: "length (waitingPlayers s) \<le> 1" using assms by (rule reachable_waiting)
  then have "distinct (map (\<lambda>p. Username (player s p)) (waitingPlayers s))"
    by (cases "waitingPlayers s") auto
  moreover have "\<forall>c u gameID order q rest.
            connOpen s c \<and> sort order = [0..<length (games s)] \<and>
            waitingPlayers s = q # rest \<and>
            rejoinLoop (allocPlayer s c u) (length (players s))
              (map (\<lambda>i. snd (games s ! i)) order) = None \<longrightarrow>
            (\<exists>s' g. step (RecvJoin c u gameID order) s = Some s' \<and> waitingPlayers s' = rest \<and>
               hgame (handlers s' ! c) = Some g \<and>
               Player1 (game s' g) = q \<and> Player2 (game s' g) = length (players s) \<and>
               Username (player s' (length (players s))) = u)"
    using join_pairs_head by blast
  ultimately show ?thesis using l by blast
qed

lemma run_waitingRun: "run waitingRun initServer = Some waitingState"
  by code_simp

theorem waiting_queue_fifo_witness:
  "reachable waitingState \<and> waitingPlayers waitingState = [0] \<and>
   (\<exists>s' g. step (RecvJoin 1 ''X'' ''game0001'' []) waitingState = Some s' \<and>
      waitingPlayers s' = [] \<and> hgame (handlers s' ! 1) = Some g \<and>
      Player1 (game s' g) = 0 \<and> Player2 (game s' g) = 1 \<and>
      Username (player s' 1) = ''X'')"
proof -
  have r: "reachable waitingState" using run_waitingRun by (rule run_reachable)
  have h1: "connOpen waitingState 1" by (simp add: connOpen_def waitingState_def)
  have h2: "sort [] = [0..<length (games waitingState)]" by (simp add: waitingState_def)
  have h3: "waitingPlayers waitingState = 0 # []" by (simp add: waitingState_def)
  have h4: "rejoinLoop (allocPlayer waitingState 1 ''X'') (length (players waitingState))
       (map (\<lambda>i. snd (games waitingState ! i)) []) = None" by simp
  have h5: "length (players waitingState) = 1" by (simp add: waitingState_def)
  from waiting_queue_fifo[OF r] h1 h2 h3 h4
  have "\<exists>s' g. step (RecvJoin 1 ''X'' ''game0001'' []) waitingState = Some s' \<and>
      waitingPlayers s' = [] \<and> hgame (handlers s' ! 1) = Some g \<and>
      Player1 (game s' g) = 0 \<and> Player2 (game s' g) = length (players waitingState) \<and>
      Username (player s' (length (players waitingState))) = ''X''"
    by blast
  with r h3 h5 show ?thesis by simp
qed

section \<open>The invariant holds in every reachable state\<close>

lemma wf_newBoard: "wf_board newBoard"
  by (simp add: wf_board_def newBoard_def ROWS_def COLS_def list_all_iff)

lemma gravity_newBoard: "gravity newBoard"
  by (simp add: gravity_def newBoard_def ROWS_def COLS_def cell_def eval_nat_numeral)

lemma place_inv:
  assumes wf: "wf_board b" and g: "gravity b" and col: "0 \<le> col" "col < COLS"
    and ne: "color \<noteq> Empty" and p: "place b col color = Some (row, b')"
  shows "wf_board b' \<and> gravity b'"
proof (cases "lowestEmpty b col")
  case None
  with p show ?thesis using wf g by (simp add: place_eq[OF wf col])
next
  case (Some r)
  have ig: "inGrid r col"
    using lowestEmpty_Some[OF Some] col by (simp add: inGrid_def)
  from p Some have "b' = b[nat r := (b ! nat r)[nat col := color]]"
    by (auto simp: place_eq[OF wf col])
  then show ?thesis
    using wf_board_update[OF wf ig] gravity_place[OF wf g Some col ne] by simp
qed

lemma place_checkWinner:
  assumes wf: "wf_board b" and col: "0 \<le> col" "col < COLS"
    and ne: "color \<noteq> Empty" and p: "place b col color = Some (row, b')" and r: "row \<noteq> - 1"
  shows "checkWinner b' row col = Some (fourInLine b' row col)"
proof (cases "lowestEmpty b col")
  case None
  with p r show ?thesis by (simp add: place_eq[OF wf col])
next
  case (Some r')
  have ig: "inGrid r' col"
    using lowestEmpty_Some[OF Some] col by (simp add: inGrid_def)
  from p Some have e: "row = r'" "b' = b[nat r' := (b ! nat r')[nat col := color]]"
    by (auto simp: place_eq[OF wf col])
  have "cell b' row col \<noteq> Some Empty"
    using cell_update_same[OF wf ig, of color] ne e by simp
  with wf_board_update[OF wf ig, of color] ig e show ?thesis
    by (intro checkWinner_wf) simp_all
qed

lemma place_total:
  assumes "wf_board b" and "0 \<le> col" and "col < COLS"
  shows "\<exists>row b'. place b col color = Some (row, b')"
  by (simp add: place_eq[OF assms] split: option.split)


lemma serverInv_cong:
  assumes "gameObjs s' = gameObjs s" and "playerGames s' = playerGames s" and "timers s' = timers s"
  shows "serverInv s' = serverInv s"
  using assms by (simp add: serverInv_def)

lemma serverInv_sendTo [simp]: "serverInv (sendTo s p m) = serverInv s"
  by (rule serverInv_cong) simp_all

lemma playerGames_broadcast [simp]:
  "playerGames (broadcastMove s g) = playerGames s"
  "playerGames (broadcastGameOver s g) = playerGames s"
  by (simp_all add: broadcastMove_def broadcastGameOver_def Let_def)

lemma serverInv_broadcast [simp]:
  "serverInv (broadcastMove s g) = serverInv s"
  "serverInv (broadcastGameOver s g) = serverInv s"
  by (rule serverInv_cong; simp)+

lemma serverInv_setGame:
  assumes "serverInv s" and "g < length (gameObjs s) \<Longrightarrow> gameInv G"
  shows "serverInv (setGame s g G)"
proof (cases "g < length (gameObjs s)")
  case True
  have "set ((gameObjs s)[g := G]) \<subseteq> insert G (set (gameObjs s))"
    by (rule set_update_subset_insert)
  with assms True show ?thesis
    by (auto simp: serverInv_def setGame_def list_all_iff)
next
  case False
  then have "gameObjs (setGame s g G) = gameObjs s"
    by (simp add: setGame_def list_update_beyond)
  then have "serverInv (setGame s g G) = serverInv s"
    by (rule serverInv_cong) simp_all
  with assms(1) show ?thesis by simp
qed

lemma serverInv_add_timer:
  assumes "serverInv s" and "timerInv (length (gameObjs s)) t"
  shows "serverInv (s\<lparr>timers := timers s @ [t]\<rparr>)"
  using assms by (simp add: serverInv_def)

lemma gameInv_game:
  "serverInv s \<Longrightarrow> g < length (gameObjs s) \<Longrightarrow> gameInv (game s g)"
  by (simp add: serverInv_def game_def list_all_iff)

lemma gameInv_updates:
  "gameInv G \<Longrightarrow> gameInv (G\<lparr>Winner := w\<rparr>)"
  "wf_board b \<Longrightarrow> gravity b \<Longrightarrow> gameInv G \<Longrightarrow> gameInv (G\<lparr>Board := b, Winner := w\<rparr>)"
  "wf_board b \<Longrightarrow> gravity b \<Longrightarrow> c = Red \<or> c = Yellow \<Longrightarrow> gameInv (G\<lparr>Board := b, CurrentPlayer := c\<rparr>)"
  "wf_board b \<Longrightarrow> gravity b \<Longrightarrow> gameInv G \<Longrightarrow> gameInv (G\<lparr>Board := b\<rparr>)"
  by (simp_all add: gameInv_def)

lemma handleMove_inv:
  assumes inv: "serverInv s" and g: "g < length (gameObjs s)"
  shows "\<exists>s'. handleMove s g p col = Some s' \<and> serverInv s'"
proof -
  let ?G = "game s g" and ?P = "player s p"
  have gi: "gameInv ?G" using inv g by (rule gameInv_game)
  then have wf: "wf_board (Board ?G)" and gr: "gravity (Board ?G)"
    and side: "CurrentPlayer ?G = Red \<or> CurrentPlayer ?G = Yellow"
    by (simp_all add: gameInv_def)
  show ?thesis
  proof (cases "Winner ?G \<noteq> [] \<or> Color ?P \<noteq> CurrentPlayer ?G \<or> col < 0 \<or> col \<ge> COLS")
    case True
    with inv show ?thesis by (auto simp: handleMove_def Let_def)
  next
    case False
    then have c: "0 \<le> col" "col < COLS" and w: "Winner ?G = []"
      and t: "CurrentPlayer ?G = Color ?P" by auto
    have ne: "Color ?P \<noteq> Empty" using side t Red_ne Yellow_ne by auto
    from place_total[OF wf c] obtain row b' where
      pl: "place (Board ?G) col (Color ?P) = Some (row, b')" by blast
    show ?thesis
    proof (cases "row = - 1")
      case True
      with inv w t c pl show ?thesis by (simp add: handleMove_def Let_def)
    next
      case False
      from place_inv[OF wf gr c ne pl] have b': "wf_board b'" "gravity b'" by simp_all
      have cw: "checkWinner b' row col = Some (fourInLine b' row col)"
        using wf c ne pl False by (rule place_checkWinner)
      have i1: "serverInv (setGame s g (?G\<lparr>Board := b', Winner := w'\<rparr>))" for w'
        using inv gi b' by (intro serverInv_setGame gameInv_updates)
      have i2: "serverInv (setGame s g (?G\<lparr>Board := b', CurrentPlayer := c'\<rparr>))"
        if "c' = Red \<or> c' = Yellow" for c'
        using inv b' that by (intro serverInv_setGame gameInv_updates)
      have i3: "serverInv (s1\<lparr>timers := timers s @ [BotThink g]\<rparr>)"
        if "serverInv s1" "length (gameObjs s1) = length (gameObjs s)" "timers s1 = timers s" for s1
        using that g by (simp add: serverInv_def timerInv_def)
      show ?thesis
        using w t c pl False i1 i2 i3
        by (cases "fourInLine b' row col"; cases "isBoardFull b'")
           (simp_all add: handleMove_def cw Let_def)
    qed
  qed
qed

lemma makeBotMove_inv:
  assumes inv: "serverInv s" and g: "g < length (gameObjs s)"
  shows "\<exists>s'. makeBotMove s g = Some s' \<and> serverInv s'"
proof -
  let ?G = "game s g"
  have gi: "gameInv ?G" using inv g by (rule gameInv_game)
  then have wf: "wf_board (Board ?G)" and gr: "gravity (Board ?G)"
    by (simp_all add: gameInv_def)
  from getBotMove_result[OF wf] obtain c where
    bm: "getBotMove (Board ?G) = Some (c, Board ?G)"
    and cr: "c \<noteq> - 1 \<longrightarrow> 0 \<le> c \<and> c < COLS" by blast
  have i0: "serverInv (setGame s g (?G\<lparr>Board := Board ?G\<rparr>))"
    using inv gi wf gr by (intro serverInv_setGame gameInv_updates)
  show ?thesis
  proof (cases "Winner ?G \<noteq> [] \<or> c = - 1")
    case True
    with inv i0 show ?thesis by (auto simp: makeBotMove_def Let_def bm)
  next
    case False
    then have c: "0 \<le> c" "c < COLS" and w: "Winner ?G = []" and c1: "c \<noteq> - 1"
      using cr by auto
    from place_total[OF wf c] obtain row b' where
      pl: "place (Board ?G) c Yellow = Some (row, b')" by blast
    show ?thesis
    proof (cases "row = - 1")
      case True
      with i0 w c1 pl show ?thesis by (simp add: makeBotMove_def Let_def bm)
    next
      case False
      from place_inv[OF wf gr c Yellow_ne pl] have b': "wf_board b'" "gravity b'" by simp_all
      have cw: "checkWinner b' row c = Some (fourInLine b' row c)"
        using wf c Yellow_ne pl False by (rule place_checkWinner)
      have i1: "serverInv (setGame s g (?G\<lparr>Board := b', Winner := w'\<rparr>))" for w'
        using inv gi b' by (intro serverInv_setGame gameInv_updates)
      have i2: "serverInv (setGame s g (?G\<lparr>Board := b', CurrentPlayer := Red\<rparr>))"
        using inv b' by (intro serverInv_setGame gameInv_updates) simp_all
      show ?thesis
        using w c1 pl False i1 i2
        by (cases "fourInLine b' row c"; cases "isBoardFull b'")
           (simp_all add: makeBotMove_def bm cw Let_def)
    qed
  qed
qed

lemma list_all_mapPut:
  "list_all P m \<Longrightarrow> P (k, v) \<Longrightarrow> list_all P (mapPut m k v)"
  by (induction m) auto

lemma createGame_inv:
  assumes "serverInv s"
  shows "serverInv (fst (createGame s p1 p2 isBot gameID))"
proof -
  have n: "gameInv \<lparr>ID = gameID, Board = newBoard, Player1 = p1, Player2 = p2,
               CurrentPlayer = Red, Winner = [], IsBot = ib\<rparr>" for ib
    by (simp add: gameInv_def wf_newBoard gravity_newBoard)
  have pg: "list_all (\<lambda>kg. snd kg < Suc (length (gameObjs s))) (playerGames s)"
    using assms by (auto simp: serverInv_def list_all_iff)
  have tm: "list_all (timerInv (Suc (length (gameObjs s)))) (timers s)"
    using assms by (auto simp: serverInv_def list_all_iff timerInv_def split: timer.splits)
  show ?thesis
    using assms n pg tm
    by (simp add: createGame_def Let_def serverInv_def list_all_mapPut)
qed

lemma gameObjs_createGame:
  "length (gameObjs (fst (createGame s p1 p2 isBot gameID))) = Suc (length (gameObjs s))"
  by (simp add: createGame_def Let_def)

lemma serverInv_reattach [simp]: "serverInv (reattach s seat p g) = serverInv s"
  by (rule serverInv_cong) (simp_all add: reattach_frame)

lemma matchPlayer_inv:
  assumes "serverInv s" and "Conn (player s p) \<noteq> None"
  shows "\<exists>s' res. matchPlayer s p gameID visit = Some (s', res) \<and> serverInv s'"
proof (cases "find (rejoinable s p) visit")
  case (Some g)
  with assms(1) show ?thesis by (simp add: matchPlayer_rejoin)
next
  case None
  then have r: "rejoinLoop s p visit = None" by (simp add: rejoinLoop_find)
  show ?thesis
  proof (cases "waitingPlayers s")
    case Nil
    have "serverInv (s\<lparr>waitingPlayers := [p], sent := sent s @ [(c, Waiting)],
                       timers := timers s @ [FallbackTimer p]\<rparr>)" for c
      using assms(1) by (simp add: serverInv_def timerInv_def)
    with assms(2) r Nil show ?thesis
      by (auto simp: matchPlayer_def writeJSON_def Let_def)
  next
    case (Cons q rest)
    have "serverInv (s\<lparr>waitingPlayers := rest\<rparr>)"
      using assms(1) by (simp add: serverInv_def)
    from createGame_inv[OF this, of q p False gameID] r Cons show ?thesis
      by (cases "createGame (s\<lparr>waitingPlayers := rest\<rparr>) q p False gameID")
         (simp add: matchPlayer_def)
  qed
qed

lemma serverInv_setHandler [simp]: "serverInv (setHandler s c h) = serverInv s"
  by (rule serverInv_cong) (simp_all add: setHandler_def)

lemma wsJoin_inv:
  assumes "serverInv s"
  shows "\<exists>s'. wsJoin s c u gameID visit = Some s' \<and> serverInv s'"
proof -
  let ?s1 = "allocPlayer s c u"
  have "serverInv ?s1" using assms by (simp add: serverInv_def allocPlayer_def)
  moreover have "Conn (player ?s1 (length (players s))) \<noteq> None"
    by (simp add: player_def allocPlayer_def)
  ultimately obtain s' res where
    "matchPlayer ?s1 (length (players s)) gameID visit = Some (s', res)" "serverInv s'"
    using matchPlayer_inv by blast
  then show ?thesis by (simp add: wsJoin_def Let_def)
qed

lemma wsMove_inv:
  assumes "serverInv s"
  shows "\<exists>s'. wsMove s c col = Some s' \<and> serverInv s'"
proof (cases "hplayer (handlers s ! c)")
  case None
  with assms show ?thesis by (simp add: wsMove_def)
next
  case (Some p)
  show ?thesis
  proof (cases "map_of (playerGames s) (Username (player s p))")
    case None
    have "serverInv (writeJSON s' c m) = serverInv s'" for s' m
      by (rule serverInv_cong) (simp_all add: writeJSON_def)
    with assms Some None show ?thesis by (simp add: wsMove_def Let_def)
  next
    case g: (Some g)
    then have "(Username (player s p), g) \<in> set (playerGames s)" by (rule map_of_SomeD)
    then have gv: "g < length (gameObjs s)"
      using assms by (auto simp: serverInv_def list_all_iff)
    let ?s1 = "setHandler s c ((handlers s ! c)\<lparr>hgame := Some g\<rparr>)"
    have "serverInv ?s1" using assms by simp
    moreover have "g < length (gameObjs ?s1)" using gv by (simp add: setHandler_def)
    ultimately obtain s' where "handleMove ?s1 g p col = Some s'" "serverInv s'"
      using handleMove_inv by blast
    with Some g show ?thesis
      by (simp add: wsMove_def Let_def player_def setHandler_def)
  qed
qed

lemma handleDisconnect_inv: "serverInv s \<Longrightarrow> serverInv (handleDisconnect s p g)"
  by (simp add: handleDisconnect_def Let_def serverInv_def timerInv_def)

lemma wsReadError_inv: "serverInv s \<Longrightarrow> serverInv (wsReadError s c)"
  by (simp add: wsReadError_def Let_def handleDisconnect_inv split: option.split)

lemma graceTimer_inv: "serverInv s \<Longrightarrow> serverInv (graceTimer s p g)"
  by (simp add: graceTimer_def Let_def serverInv_setGame gameInv_game gameInv_updates)

lemma fallbackTimer_inv:
  assumes "serverInv s"
  shows "serverInv (fallbackTimer s p gameID)"
proof -
  have "serverInv (s\<lparr>waitingPlayers := w, players := ps\<rparr>)" for w ps
    using assms by (simp add: serverInv_def)
  then show ?thesis
    using assms by (simp add: fallbackTimer_def Let_def createGame_inv)
qed

lemma step_inv:
  assumes "serverInv s"
  shows "\<exists>s'. step e s = Some s' \<and> serverInv s'"
proof (cases e)
  case Connect
  with assms show ?thesis by (simp add: serverInv_def)
next
  case (RecvJoin c u gameID order)
  with assms wsJoin_inv[OF assms] show ?thesis by simp
next
  case (RecvMove c col)
  with assms wsMove_inv[OF assms] show ?thesis by simp
next
  case (ReadError c)
  with assms wsReadError_inv[OF assms] show ?thesis by simp
next
  case (Fire i gameID)
  show ?thesis
  proof (cases "i < length (timers s)")
    case False
    with assms Fire show ?thesis by simp
  next
    case True
    let ?s1 = "s\<lparr>timers := take i (timers s) @ drop (Suc i) (timers s)\<rparr>"
    have "set (take i (timers s) @ drop (Suc i) (timers s)) \<subseteq> set (timers s)"
      using set_take_subset set_drop_subset by fastforce
    then have i1: "serverInv ?s1"
      using assms by (auto simp: serverInv_def list_all_iff)
    have tv: "timerInv (length (gameObjs s)) (timers s ! i)"
      using assms True by (simp add: serverInv_def list_all_length)
    have "\<exists>s'. fire ?s1 (timers s ! i) gameID = Some s' \<and> serverInv s'"
    proof (cases "timers s ! i")
      case (FallbackTimer p)
      with i1 show ?thesis by (simp add: fire_def fallbackTimer_inv)
    next
      case (BotThink g)
      with tv have "g < length (gameObjs ?s1)" by (simp add: timerInv_def)
      from makeBotMove_inv[OF i1 this] BotThink show ?thesis by (simp add: fire_def)
    next
      case (GraceTimer p g)
      with i1 show ?thesis by (simp add: fire_def graceTimer_inv)
    qed
    with True Fire show ?thesis by simp
  qed
qed

lemma serverInv_init: "serverInv initServer"
  by (simp add: serverInv_def initServer_def)

lemma reachable_inv: "reachable s \<Longrightarrow> serverInv s"
proof (induction rule: reachable.induct)
  case reachable_init
  show ?case by (rule serverInv_init)
next
  case (reachable_step s e s')
  with step_inv[of s e] show ?case by auto
qed

lemma reachable_no_panic: "reachable s \<Longrightarrow> step e s \<noteq> None"
  using step_inv[of s e] reachable_inv by fastforce

lemma reachable_gravity:
  "reachable s \<Longrightarrow> g < length (gameObjs s) \<Longrightarrow>
   wf_board (Board (game s g)) \<and> gravity (Board (game s g))"
  using gameInv_game[of s g] reachable_inv[of s] by (simp add: gameInv_def)

subsection \<open>Placement and gravity\<close>

text \<open>
  Claim C2. On a 6x7 board and a column index in range, the placement (lines 262-278 of
  \<open>handleMove\<close>) fails with row \<open>-1\<close> and leaves the board as it is when the column has
  no empty cell. Otherwise it writes the disc on an empty cell of the column below which
  (at larger row indices) no cell is empty, changes no other cell, and a board that
  satisfies the gravity invariant still satisfies it after a disc (a non-empty color) is
  placed. So the board of every game in every reachable state of the server satisfies
  the gravity invariant.
\<close>

theorem place_lowest_empty:
  assumes wf: "wf_board b" and col: "0 \<le> col" "col < COLS"
  shows "(\<not> hasRoom b col \<longrightarrow> place b col color = Some (- 1, b)) \<and>
         (hasRoom b col \<longrightarrow>
            (\<exists>row. place b col color = Some (row, b[nat row := (b ! nat row)[nat col := color]]) \<and>
               0 \<le> row \<and> row < ROWS \<and> cell b row col = Some Empty \<and>
               (\<forall>r. row < r \<and> r < ROWS \<longrightarrow> cell b r col \<noteq> Some Empty) \<and>
               (gravity b \<and> color \<noteq> Empty \<longrightarrow>
                  gravity (b[nat row := (b ! nat row)[nat col := color]])))) \<and>
         (\<forall>s g. reachable s \<and> g < length (gameObjs s) \<longrightarrow> gravity (Board (game s g)))"
proof (cases "lowestEmpty b col")
  case None
  then show ?thesis
    using lowestEmpty_None[of b col] reachable_gravity
    by (simp add: place_def findRow_wf[OF assms])
next
  case (Some row)
  have ig: "inGrid row col"
    using lowestEmpty_Some[OF Some] col by (simp add: inGrid_def)
  have r: "row \<noteq> - 1" using ig by (auto simp: inGrid_def)
  have hr: "hasRoom b col" using Some lowestEmpty_None[of b col] by simp
  have p: "place b col color = Some (row, b[nat row := (b ! nat row)[nat col := color]])"
    by (simp add: place_def findRow_wf[OF assms] Some r setCell_wf[OF wf ig])
  show ?thesis
    using hr p lowestEmpty_Some[OF Some] lowestEmpty_lowest[OF Some]
      gravity_place[OF wf _ Some col] reachable_gravity
    by blast
qed

theorem place_lowest_empty_witness:
  "wf_board winBlockBoard \<and> hasRoom winBlockBoard 6 \<and> gravity winBlockBoard \<and>
   place winBlockBoard 6 Yellow = Some (2, winBlockBoard') \<and> gravity winBlockBoard' \<and>
   wf_board fullBoard \<and> \<not> hasRoom fullBoard 0 \<and> place fullBoard 0 Yellow = Some (- 1, fullBoard) \<and>
   (\<exists>s. run pairedRun initServer = Some s \<and> length (gameObjs s) = 1 \<and>
        gravity (Board (game s 0)))"
proof -
  have c: "(0::int) \<le> 6" "6 < COLS" "(0::int) \<le> 0" "0 < COLS" by (simp_all add: COLS_def)
  have r: "hasRoom winBlockBoard 6" by code_simp
  have p: "place winBlockBoard 6 Yellow = Some (2, winBlockBoard')" by code_simp
  have f: "\<not> hasRoom fullBoard 0" by code_simp
  from place_lowest_empty[OF wf_winBlockBoard c(1,2), of Yellow] r p gravity_winBlockBoard Yellow_ne
  have "gravity winBlockBoard'" by auto
  moreover from place_lowest_empty[OF wf_fullBoard c(3,4), of Yellow] f
  have "place fullBoard 0 Yellow = Some (- 1, fullBoard)" by blast
  moreover have "\<exists>s. run pairedRun initServer = Some s \<and> length (gameObjs s) = 1 \<and>
        gravity (Board (game s 0))"
  proof -
    have "map_option (\<lambda>s. length (gameObjs s)) (run pairedRun initServer) = Some 1"
      by code_simp
    then obtain s where s: "run pairedRun initServer = Some s" "length (gameObjs s) = 1"
      by auto
    from s(1) have "reachable s" by (rule run_reachable)
    with place_lowest_empty[OF wf_fullBoard c(3,4), of Yellow] s(2)
    have "gravity (Board (game s 0))" by simp
    with s show ?thesis by blast
  qed
  ultimately show ?thesis
    using wf_winBlockBoard wf_fullBoard gravity_winBlockBoard r p f by simp
qed

end
